theory Spec2Isabelle
  imports Main "HOL-Library.Code_Target_Nat"
begin

section \<open>The JSON-LD credential format service\<close>

text \<open>
  A shallow embedding of \<^verbatim>\<open>JsonLdCredentialFormatService.ts\<close>. Every method of the
  class becomes a function of the same name. A thrown exception is the \<open>Inl\<close> branch of a
  sum, the collaborators a method resolves from its \<open>agentContext\<close> are the fields of the
  record \<open>AgentContext\<close>, and every call of a collaborator is written to a log, so that
  the order of the calls can be stated. Values have the types the TypeScript source
  declares for them: an optional property \<open>x?: string\<close> is a \<open>string option\<close>, with
  \<open>None\<close> for \<open>undefined\<close>. Natural numbers are evaluated as integers of the target
  language (\<open>Code_Target_Nat\<close>), so that the definitions run on long numerals.
\<close>

subsection \<open>Data\<close>

text \<open>
  Plain JSON data, as it travels inside an attachment. A number \<open>JNum m e\<close> is the
  decimal number with the mantissa \<open>m\<close> and the exponent \<open>e\<close>.
\<close>

datatype json =
  JNull
  | JBool bool
  | JNum int int
  | JStr string
  | JArr "json list"
  | JObj "(string \<times> json) list"

text \<open>
  Every error the service raises itself is an \<open>AriesFrameworkError\<close> with a message;
  \<open>OtherError\<close> stands for any other exception (a validation error of the transformer,
  a failure inside a collaborator).
\<close>

datatype error = AriesFrameworkError string | OtherError string

text \<open>The options of a credential detail (\<open>JsonLdFormatDataCredentialDetailOptions\<close>).\<close>

record JsonLdFormatDataCredentialDetailOptions =
  proofType :: string
  proofPurpose :: "string option"
  created :: "string option"
  domain :: "string option"
  challenge :: "string option"
  credentialStatus :: "json option"

text \<open>A credential detail: the unsigned credential and the options of its proof.\<close>

record JsonLdFormatDataCredentialDetail =
  credential :: json
  options :: JsonLdFormatDataCredentialDetailOptions

text \<open>The issuer of a credential is a bare identifier or an object with an \<open>id\<close>.\<close>

datatype Issuer = IssuerString string | IssuerObject string

text \<open>
  The class instances \<open>W3cCredential\<close> and \<open>W3cVerifiableCredential\<close>. The service reads
  the issuer and the proof only; the remaining properties are kept as JSON.
\<close>

record LinkedDataProof =
  proof_type :: string
  proof_proofPurpose :: "string option"
  proof_verificationMethod :: string
  proof_created :: "string option"
  proof_domain :: "string option"
  proof_challenge :: "string option"
  proof_signature :: json

datatype 'a SingleOrArray = Single 'a | Array "'a list"

record W3cCredential =
  issuer :: Issuer
  claims :: json

record W3cVerifiableCredential = W3cCredential +
  vc_proof :: "LinkedDataProof SingleOrArray"

text \<open>An attachment: an id, a media type and a base64 body.\<close>

record V1AttachmentData =
  base64 :: string

record V1Attachment =
  attachment_id :: string
  mimeType :: string
  attachment_data :: V1AttachmentData

record CredentialFormatSpec =
  attachId :: string
  format_name :: string

subsection \<open>Format identifiers\<close>

definition JSONLD_VC_DETAIL :: string where
  "JSONLD_VC_DETAIL = ''aries/ld-proof-vc-detail@v1.0''"

definition JSONLD_VC :: string where
  "JSONLD_VC = ''aries/ld-proof-vc@1.0''"

definition supportsFormat :: "string \<Rightarrow> bool" where
  "supportsFormat fmt =
     (let supportedFormats = [JSONLD_VC_DETAIL, JSONLD_VC]
      in fmt \<in> set supportedFormats)"

subsection \<open>Collaborators and imported helpers\<close>

text \<open>
  The identity document of an issuer, as far as the service reads it: its verification
  methods, in the order of the document.
\<close>

record VerificationMethod =
  vm_id :: string
  vm_type :: string
  vm_controller :: string

record DidDocument =
  did :: string
  doc_verificationMethod :: "VerificationMethod list"

record SignCredentialOptions =
  sign_credential :: W3cCredential
  sign_proofType :: string
  sign_verificationMethod :: string

text \<open>
  The answer of the verification service. The source tests \<open>result && !result.verified\<close>,
  so the answer may be missing altogether: it is an option here.
\<close>

record W3cVerifyCredentialResult =
  verified :: bool
  verify_error :: "string option"

record W3cCredentialRecord =
  record_id :: string

text \<open>
  What a method resolves from \<open>agentContext.dependencyManager\<close>: the resolver of
  identifiers (\<open>DidResolverService\<close>) and the credential service (\<open>W3cCredentialService\<close>).
  Each of them may throw.
\<close>

record AgentContext =
  resolveDidDocument :: "string \<Rightarrow> error + DidDocument"
  getVerificationMethodTypesByProofType :: "string \<Rightarrow> error + string list option"
  signCredential :: "SignCredentialOptions \<Rightarrow> error + W3cVerifiableCredential"
  verifyCredential :: "W3cVerifiableCredential \<Rightarrow> error + W3cVerifyCredentialResult option"
  storeCredential :: "W3cVerifiableCredential \<Rightarrow> error + W3cCredentialRecord"

text \<open>The calls a method makes to its collaborators, logged in the order they are made.\<close>

datatype call =
  ResolveDidDocument string
  | GetVerificationMethodTypesByProofType string
  | SignCredential SignCredentialOptions
  | VerifyCredential W3cVerifiableCredential
  | StoreCredential W3cVerifiableCredential

text \<open>
  The functions the service imports from modules that are not part of the sources at
  hand (\<open>JsonTransformer\<close> and \<open>areObjectsEqual\<close>) are parameters. \<open>fromJSON\<close> validates
  and may throw; \<open>toJSON\<close> and \<open>areObjectsEqual\<close> return.
\<close>

record Helpers =
  fromJSON_JsonLdCredentialDetail :: "json \<Rightarrow> error + unit"
  fromJSON_W3cCredential :: "json \<Rightarrow> error + W3cCredential"
  fromJSON_W3cVerifiableCredential :: "json \<Rightarrow> error + W3cVerifiableCredential"
  toJSON :: "W3cVerifiableCredential \<Rightarrow> json"
  areObjectsEqual :: "json \<Rightarrow> json \<Rightarrow> bool"

text \<open>
  \<open>JsonEncoder\<close> at the type of the payload it carries: \<open>toBase64\<close> returns, \<open>fromBase64\<close>
  may throw.
\<close>

record 'p JsonEncoder =
  toBase64 :: "'p \<Rightarrow> string"
  fromBase64 :: "string \<Rightarrow> error + 'p"

text \<open>
  Modelled from the spec: \<open>V1Attachment.getDataAsJson\<close>, which is not part of the sources
  at hand. Decoding is the inverse of encoding: it reads the base64 body of the
  attachment and fails when the body is not base64-encoded JSON.
\<close>

definition getDataAsJson :: "'p JsonEncoder \<Rightarrow> V1Attachment \<Rightarrow> error + 'p" where
  "getDataAsJson enc att = fromBase64 enc (base64 (attachment_data att))"

definition getFormatData :: "'p JsonEncoder \<Rightarrow> 'p \<Rightarrow> string \<Rightarrow> V1Attachment" where
  "getFormatData enc payload aid =
     \<lparr>attachment_id = aid,
      mimeType = ''application/json'',
      attachment_data = \<lparr>base64 = toBase64 enc payload\<rparr>\<rparr>"

text \<open>
  Modelled from the spec: the constructor of \<open>CredentialFormatSpec\<close>, which is not part of
  the sources at hand. It keeps the attachment id it is given and takes a fresh one
  (\<open>fresh\<close>, what \<open>uuid()\<close> would return) when it is given none.
\<close>

definition newCredentialFormatSpec :: "string \<Rightarrow> string option \<Rightarrow> string \<Rightarrow> CredentialFormatSpec" where
  "newCredentialFormatSpec fresh aid fmt =
     \<lparr>attachId = (case aid of Some a \<Rightarrow> a | None \<Rightarrow> fresh), format_name = fmt\<rparr>"

text \<open>
  Modelled from the spec: \<open>findVerificationMethodByKeyType\<close>, which is not part of the
  sources at hand. It searches the identity document for a verification method of the
  key type and returns the first one, or nothing.
\<close>

definition findVerificationMethodByKeyType :: "string \<Rightarrow> DidDocument \<Rightarrow> VerificationMethod option" where
  "findVerificationMethodByKeyType keyType doc =
     find (\<lambda>m. vm_type m = keyType) (doc_verificationMethod doc)"

subsection \<open>JavaScript operators\<close>

text \<open>\<open>xs.join(sep)\<close> on an array of strings.\<close>

fun join :: "string \<Rightarrow> string list \<Rightarrow> string" where
  "join sep [] = []"
| "join sep [x] = x"
| "join sep (x # y # ys) = x @ sep @ join sep (y # ys)"

text \<open>The truth value of an optional string: \<open>undefined\<close> and the empty string are false.\<close>

definition truthy :: "string option \<Rightarrow> bool" where
  "truthy v = (case v of None \<Rightarrow> False | Some s \<Rightarrow> s \<noteq> [])"

text \<open>\<open>delete obj.proof\<close>.\<close>

definition delete_proof :: "json \<Rightarrow> json" where
  "delete_proof j =
     (case j of JObj kvs \<Rightarrow> JObj (filter (\<lambda>kv. fst kv \<noteq> ''proof'') kvs) | _ \<Rightarrow> j)"

subsection \<open>The credential matcher\<close>

definition verifyReceivedCredentialMatchesRequest ::
  "Helpers \<Rightarrow> W3cVerifiableCredential \<Rightarrow> JsonLdFormatDataCredentialDetail \<Rightarrow> error + unit" where
  "verifyReceivedCredentialMatchesRequest h vc request =
     (let jsonCredential = delete_proof (toJSON h vc) in
      case vc_proof vc of
        Array ps \<Rightarrow> Inl (AriesFrameworkError ''Credential proof arrays are not supported'')
      | Single p \<Rightarrow>
          if truthy (created (options request)) \<and> proof_created p \<noteq> created (options request)
          then Inl (AriesFrameworkError
            ''Received credential proof created does not match created from credential request'')
          else if proof_domain p \<noteq> domain (options request)
          then Inl (AriesFrameworkError
            ''Received credential proof domain does not match domain from credential request'')
          else if proof_challenge p \<noteq> challenge (options request)
          then Inl (AriesFrameworkError
            ''Received credential proof challenge does not match challenge from credential request'')
          else if proof_type p \<noteq> proofType (options request)
          then Inl (AriesFrameworkError
            ''Received credential proof type does not match proof type from credential request'')
          else if proof_proofPurpose p \<noteq> proofPurpose (options request)
          then Inl (AriesFrameworkError
            ''Received credential proof purpose does not match proof purpose from credential request'')
          else if \<not> areObjectsEqual h jsonCredential (credential request)
          then Inl (AriesFrameworkError ''Received credential does not match credential request'')
          else Inr ())"

subsection \<open>Receiving a credential\<close>

record CredentialRecordBinding =
  credentialRecordType :: string
  credentialRecordId :: string

record CredentialExchangeRecord =
  credentials :: "CredentialRecordBinding list"

definition credentialRecordType_w3c :: string where
  "credentialRecordType_w3c = ''w3c''"

text \<open>
  \<open>processCredential\<close> returns its outcome, the log of its calls, and the exchange record
  as the method leaves it (the source mutates the record it is given).
\<close>

definition processCredential ::
  "json JsonEncoder \<Rightarrow> JsonLdFormatDataCredentialDetail JsonEncoder \<Rightarrow> Helpers \<Rightarrow> AgentContext \<Rightarrow>
   CredentialExchangeRecord \<Rightarrow> V1Attachment \<Rightarrow> V1Attachment \<Rightarrow>
   (error + unit) \<times> call list \<times> CredentialExchangeRecord" where
  "processCredential encJ encD h ctx credentialRecord attachment requestAttachment =
     (case getDataAsJson encJ attachment of
        Inl e \<Rightarrow> (Inl e, [], credentialRecord)
      | Inr credentialAsJson \<Rightarrow>
     (case fromJSON_W3cVerifiableCredential h credentialAsJson of
        Inl e \<Rightarrow> (Inl e, [], credentialRecord)
      | Inr vc \<Rightarrow>
     (case getDataAsJson encD requestAttachment of
        Inl e \<Rightarrow> (Inl e, [], credentialRecord)
      | Inr requestAsJson \<Rightarrow>
     (case verifyReceivedCredentialMatchesRequest h vc requestAsJson of
        Inl e \<Rightarrow> (Inl e, [], credentialRecord)
      | Inr u \<Rightarrow>
     (case verifyCredential ctx vc of
        Inl e \<Rightarrow> (Inl e, [VerifyCredential vc], credentialRecord)
      | Inr result \<Rightarrow>
          if (case result of None \<Rightarrow> False | Some r \<Rightarrow> \<not> verified r)
          then (Inl (AriesFrameworkError (''Failed to validate credential, error = '' @
                  (case result of None \<Rightarrow> ''undefined''
                   | Some r \<Rightarrow> (case verify_error r of None \<Rightarrow> ''undefined'' | Some m \<Rightarrow> m)))),
                [VerifyCredential vc], credentialRecord)
          else
     (case storeCredential ctx vc of
        Inl e \<Rightarrow> (Inl e, [VerifyCredential vc, StoreCredential vc], credentialRecord)
      | Inr verifiableCredential \<Rightarrow>
          (Inr (), [VerifyCredential vc, StoreCredential vc],
           credentialRecord\<lparr>credentials := credentials credentialRecord @
             [\<lparr>credentialRecordType = credentialRecordType_w3c,
               credentialRecordId = record_id verifiableCredential\<rparr>]\<rparr>)))))))"

text \<open>
  \<open>shouldAutoRespondToCredential\<close>: the two attachments are decoded and the credential is
  transformed before the \<open>try\<close> block, which holds the matcher alone.
\<close>

definition shouldAutoRespondToCredential ::
  "json JsonEncoder \<Rightarrow> JsonLdFormatDataCredentialDetail JsonEncoder \<Rightarrow> Helpers \<Rightarrow>
   V1Attachment \<Rightarrow> V1Attachment \<Rightarrow> error + bool" where
  "shouldAutoRespondToCredential encJ encD h requestAttachment credentialAttachment =
     (case getDataAsJson encJ credentialAttachment of
        Inl e \<Rightarrow> Inl e
      | Inr credentialJson \<Rightarrow>
     (case fromJSON_W3cVerifiableCredential h credentialJson of
        Inl e \<Rightarrow> Inl e
      | Inr w3cCredential \<Rightarrow>
     (case getDataAsJson encD requestAttachment of
        Inl e \<Rightarrow> Inl e
      | Inr request \<Rightarrow>
     (case verifyReceivedCredentialMatchesRequest h w3cCredential request of
        Inr u \<Rightarrow> Inr True
      | Inl e \<Rightarrow> Inr False))))"

subsection \<open>Proposal, offer and request\<close>

text \<open>
  \<open>acceptProposal\<close> and \<open>acceptOffer\<close>: decode the detail, validate it, and encode the same
  detail again under the format \<open>JSONLD_VC_DETAIL\<close>. No property of the detail is read
  here: the detail is the JSON value that the attachment decodes to, and that value is
  what is encoded again.
\<close>

definition acceptProposal ::
  "json JsonEncoder \<Rightarrow> Helpers \<Rightarrow> string \<Rightarrow>
   string option \<Rightarrow> V1Attachment \<Rightarrow> error + CredentialFormatSpec \<times> V1Attachment" where
  "acceptProposal enc h fresh aid proposalAttachment =
     (let fmt = newCredentialFormatSpec fresh aid JSONLD_VC_DETAIL in
      case getDataAsJson enc proposalAttachment of
        Inl e \<Rightarrow> Inl e
      | Inr credentialProposal \<Rightarrow>
     (case fromJSON_JsonLdCredentialDetail h credentialProposal of
        Inl e \<Rightarrow> Inl e
      | Inr u \<Rightarrow>
          (let offerData = credentialProposal;
               attachment = getFormatData enc offerData (attachId fmt)
           in Inr (fmt, attachment))))"

definition acceptOffer ::
  "json JsonEncoder \<Rightarrow> Helpers \<Rightarrow> string \<Rightarrow>
   string option \<Rightarrow> V1Attachment \<Rightarrow> error + CredentialFormatSpec \<times> V1Attachment" where
  "acceptOffer enc h fresh aid offerAttachment =
     (case getDataAsJson enc offerAttachment of
        Inl e \<Rightarrow> Inl e
      | Inr credentialOffer \<Rightarrow>
     (case fromJSON_JsonLdCredentialDetail h credentialOffer of
        Inl e \<Rightarrow> Inl e
      | Inr u \<Rightarrow>
          (let fmt = newCredentialFormatSpec fresh aid JSONLD_VC_DETAIL;
               attachment = getFormatData enc credentialOffer (attachId fmt)
           in Inr (fmt, attachment))))"

subsection \<open>Issuance\<close>

definition deriveVerificationMethod ::
  "Helpers \<Rightarrow> AgentContext \<Rightarrow> json \<Rightarrow> JsonLdFormatDataCredentialDetail \<Rightarrow>
   (error + string) \<times> call list" where
  "deriveVerificationMethod h ctx credentialAsJson credentialRequest =
     (case fromJSON_W3cCredential h credentialAsJson of
        Inl e \<Rightarrow> (Inl e, [])
      | Inr cred \<Rightarrow>
     (let issuerDid = (case issuer cred of IssuerString s \<Rightarrow> s | IssuerObject i \<Rightarrow> i) in
      case resolveDidDocument ctx issuerDid of
        Inl e \<Rightarrow> (Inl e, [ResolveDidDocument issuerDid])
      | Inr issuerDidDocument \<Rightarrow>
     (let pt = proofType (options credentialRequest);
          calls = [ResolveDidDocument issuerDid, GetVerificationMethodTypesByProofType pt] in
      case getVerificationMethodTypesByProofType ctx pt of
        Inl e \<Rightarrow> (Inl e, calls)
      | Inr keyType \<Rightarrow>
     (case keyType of
        None \<Rightarrow> (Inl (AriesFrameworkError (''No Key Type found for proofType '' @ pt)), calls)
      | Some ks \<Rightarrow>
          if length ks = 0
          then (Inl (AriesFrameworkError (''No Key Type found for proofType '' @ pt)), calls)
          else
     (case findVerificationMethodByKeyType (ks ! 0) issuerDidDocument of
        None \<Rightarrow>
          (Inl (AriesFrameworkError (''Missing verification method for key type '' @ join '','' ks)),
           calls)
      | Some m \<Rightarrow> (Inr (vm_id m), calls))))))"

text \<open>What the caller of \<open>acceptRequest\<close> may pass as \<open>credentialFormats\<close>.\<close>

record JsonLdAcceptRequestFormat =
  verificationMethod :: "string option"

record CredentialFormats =
  jsonld :: "JsonLdAcceptRequestFormat option"

text \<open>\<open>credentialFormats?.jsonld?.verificationMethod\<close>.\<close>

definition suppliedVerificationMethod :: "CredentialFormats option \<Rightarrow> string option" where
  "suppliedVerificationMethod credentialFormats =
     (case credentialFormats of
        None \<Rightarrow> None
      | Some cf \<Rightarrow> (case jsonld cf of None \<Rightarrow> None | Some f \<Rightarrow> verificationMethod f))"

text \<open>\<open>options[field] !== undefined\<close> for the four names of \<open>unsupportedFields\<close>.\<close>

definition optionDefined :: "JsonLdFormatDataCredentialDetailOptions \<Rightarrow> string \<Rightarrow> bool" where
  "optionDefined opts field =
     (if field = ''challenge'' then challenge opts \<noteq> None
      else if field = ''domain'' then domain opts \<noteq> None
      else if field = ''credentialStatus'' then credentialStatus opts \<noteq> None
      else if field = ''created'' then created opts \<noteq> None
      else False)"

definition unsupportedFields :: "string list" where
  "unsupportedFields = [''challenge'', ''domain'', ''credentialStatus'', ''created'']"

definition acceptRequest ::
  "JsonLdFormatDataCredentialDetail JsonEncoder \<Rightarrow> W3cVerifiableCredential JsonEncoder \<Rightarrow>
   Helpers \<Rightarrow> AgentContext \<Rightarrow> string \<Rightarrow>
   CredentialFormats option \<Rightarrow> string option \<Rightarrow> V1Attachment \<Rightarrow>
   (error + CredentialFormatSpec \<times> V1Attachment) \<times> call list" where
  "acceptRequest encD encC h ctx fresh credentialFormats aid requestAttachment =
     (case getDataAsJson encD requestAttachment of
        Inl e \<Rightarrow> (Inl e, [])
      | Inr credentialRequest \<Rightarrow>
     (case (case suppliedVerificationMethod credentialFormats of
              Some m \<Rightarrow> (Inr m, [])
            | None \<Rightarrow> deriveVerificationMethod h ctx (credential credentialRequest) credentialRequest) of
        (Inl e, calls) \<Rightarrow> (Inl e, calls)
      | (Inr vm, calls) \<Rightarrow>
          if vm = []
          then (Inl (AriesFrameworkError ''Missing verification method in credential data''), calls)
          else
     (let fmt = newCredentialFormatSpec fresh aid JSONLD_VC;
          opts = options credentialRequest;
          foundFields = filter (\<lambda>field. optionDefined opts field) unsupportedFields
      in
          if length foundFields > 0
          then (Inl (AriesFrameworkError
                  (''Some fields are not currently supported in credential options: '' @
                   join '', '' foundFields)), calls)
          else
     (case fromJSON_W3cCredential h (credential credentialRequest) of
        Inl e \<Rightarrow> (Inl e, calls)
      | Inr cred \<Rightarrow>
     (let signOptions =
            \<lparr>sign_credential = cred,
             sign_proofType = proofType (options credentialRequest),
             sign_verificationMethod = vm\<rparr>
      in
      case signCredential ctx signOptions of
        Inl e \<Rightarrow> (Inl e, calls @ [SignCredential signOptions])
      | Inr verifiableCredential \<Rightarrow>
          (Inr (fmt, getFormatData encC verifiableCredential (attachId fmt)),
           calls @ [SignCredential signOptions]))))))"

subsection \<open>The attachment codec\<close>

text \<open>
  Modelled from the spec: \<open>JsonEncoder\<close>, which is not part of the sources at hand. The
  specification says of the codec that encoding serialises the payload to JSON and
  base64-encodes it, and that decoding is the inverse and fails when the body is not
  base64-encoded JSON. Serialisation and parsing follow \<open>JSON.stringify\<close> and
  \<open>JSON.parse\<close>. Strings are sequences of bytes (the UTF-8 encoding of the text).
\<close>

text \<open>Modelled from the spec: base64 with the standard alphabet and \<open>=\<close> padding.\<close>

definition base64_alphabet :: string where
  "base64_alphabet = ''ABCDEFGHIJKLMNOPQRSTUVWXYZabcdefghijklmnopqrstuvwxyz0123456789+/''"

definition base64_char :: "nat \<Rightarrow> char" where
  "base64_char i = base64_alphabet ! i"

fun index_of :: "char \<Rightarrow> string \<Rightarrow> nat option" where
  "index_of c [] = None"
| "index_of c (x # xs) = (if c = x then Some 0 else map_option Suc (index_of c xs))"

definition base64_index :: "char \<Rightarrow> nat option" where
  "base64_index c = index_of c base64_alphabet"

fun base64_encode :: "string \<Rightarrow> string" where
  "base64_encode [] = []"
| "base64_encode [a] =
     (let x = (of_char a :: nat)
      in [base64_char (x div 4), base64_char ((x mod 4) * 16), CHR ''='', CHR ''=''])"
| "base64_encode [a, b] =
     (let x = (of_char a :: nat); y = (of_char b :: nat)
      in [base64_char (x div 4), base64_char ((x mod 4) * 16 + y div 16),
          base64_char ((y mod 16) * 4), CHR ''=''])"
| "base64_encode (a # b # c # rest) =
     (let x = (of_char a :: nat); y = (of_char b :: nat); z = (of_char c :: nat)
      in [base64_char (x div 4), base64_char ((x mod 4) * 16 + y div 16),
          base64_char ((y mod 16) * 4 + z div 64), base64_char (z mod 64)] @ base64_encode rest)"

fun base64_decode :: "string \<Rightarrow> string option" where
  "base64_decode [] = Some []"
| "base64_decode (c0 # c1 # c2 # c3 # rest) =
     (case (base64_index c0, base64_index c1) of
        (Some i0, Some i1) \<Rightarrow>
          if rest = [] \<and> c2 = CHR ''='' \<and> c3 = CHR ''=''
          then Some [char_of (i0 * 4 + i1 div 16)]
          else
            (case base64_index c2 of
               None \<Rightarrow> None
             | Some i2 \<Rightarrow>
                 if rest = [] \<and> c3 = CHR ''=''
                 then Some [char_of (i0 * 4 + i1 div 16), char_of ((i1 mod 16) * 16 + i2 div 4)]
                 else
                   (case base64_index c3 of
                      None \<Rightarrow> None
                    | Some i3 \<Rightarrow>
                        (case base64_decode rest of
                           None \<Rightarrow> None
                         | Some bs \<Rightarrow>
                             Some (char_of (i0 * 4 + i1 div 16) #
                                   char_of ((i1 mod 16) * 16 + i2 div 4) #
                                   char_of ((i2 mod 4) * 64 + i3) # bs))))
      | _ \<Rightarrow> None)"
| "base64_decode _ = None"

text \<open>Modelled from the spec: decimal digits.\<close>

definition is_digit :: "char \<Rightarrow> bool" where
  "is_digit c = (48 \<le> (of_char c :: nat) \<and> (of_char c :: nat) \<le> 57)"

definition digit_char :: "nat \<Rightarrow> char" where
  "digit_char d = char_of (48 + d)"

definition digit_val :: "char \<Rightarrow> nat" where
  "digit_val c = of_char c - 48"

function show_nat :: "nat \<Rightarrow> string" where
  "show_nat n = (if n < 10 then [digit_char n] else show_nat (n div 10) @ [digit_char (n mod 10)])"
  by pat_completeness auto
termination
  by (relation "measure id") auto

definition nat_of_digits :: "string \<Rightarrow> nat" where
  "nat_of_digits ds = foldl (\<lambda>a c. a * 10 + digit_val c) 0 ds"

text \<open>
  Modelled from the spec: JSON numbers. A number \<open>JNum m e\<close> is the decimal number
  \<open>m \<times> 10\<^sup>e\<close>, with all its digits. Of the pairs that stand for one number, the number
  itself is the one whose mantissa does not end in a zero (zero is \<open>JNum 0 0\<close>);
  \<open>normalise\<close> computes it. This is the exact value of a numeral: the rounding to the
  nearest double (or to an infinity, beyond the range of doubles) that JavaScript
  applies when it reads a numeral is not modelled.
\<close>

function normalise :: "nat \<Rightarrow> int \<Rightarrow> nat \<times> int" where
  "normalise m e =
     (if m = 0 then (0, 0)
      else if m mod 10 = 0 then normalise (m div 10) (e + 1)
      else (m, e))"
  by pat_completeness auto
termination
  by (relation "measure fst") auto

definition canonical_number :: "int \<Rightarrow> int \<Rightarrow> bool" where
  "canonical_number m e = (if m = 0 then e = 0 else m mod 10 \<noteq> 0)"

text \<open>
  Modelled from the spec: a number is written as JavaScript writes it. With \<open>k\<close> digits
  \<open>ds\<close> and the decimal point after the \<open>n\<close>-th of them: the digits and \<open>n - k\<close> zeros
  when \<open>k \<le> n \<le> 21\<close>; the digits with the point among them when \<open>0 < n \<le> 21\<close>; \<open>0.\<close>,
  \<open>- n\<close> zeros and the digits when \<open>- 6 < n \<le> 0\<close>; and otherwise the first digit, the
  others after a point, and the exponent \<open>n - 1\<close> with its sign.
\<close>

definition show_exponent :: "int \<Rightarrow> string" where
  "show_exponent x = CHR ''e'' # (if x < 0 then CHR ''-'' else CHR ''+'') # show_nat (nat \<bar>x\<bar>)"

definition show_number :: "int \<Rightarrow> int \<Rightarrow> string" where
  "show_number m e =
     (let ds = show_nat (nat \<bar>m\<bar>);
          k = int (length ds);
          n = k + e;
          body =
            (if m = 0 then ''0''
             else if k \<le> n \<and> n \<le> 21 then ds @ replicate (nat (n - k)) CHR ''0''
             else if 0 < n \<and> n \<le> 21 then take (nat n) ds @ ''.'' @ drop (nat n) ds
             else if - 6 < n \<and> n \<le> 0 then ''0.'' @ replicate (nat (- n)) CHR ''0'' @ ds
             else if k = 1 then ds @ show_exponent (n - 1)
             else take 1 ds @ ''.'' @ drop 1 ds @ show_exponent (n - 1))
      in if m < 0 then CHR ''-'' # body else body)"

text \<open>
  Modelled from the spec: a numeral is read by the grammar of JSON: an optional minus
  sign, an integer part with no leading zero, an optional fraction (a point and at least
  one digit), an optional exponent (\<open>e\<close> or \<open>E\<close>, an optional sign, at least one digit).
\<close>

definition read_fraction :: "string \<Rightarrow> (string \<times> string) option" where
  "read_fraction s =
     (case s of
        [] \<Rightarrow> Some ([], s)
      | c # cs \<Rightarrow>
          if c = CHR ''.''
          then (if takeWhile is_digit cs = [] then None
                else Some (takeWhile is_digit cs, dropWhile is_digit cs))
          else Some ([], s))"

definition read_exponent :: "string \<Rightarrow> (int \<times> string) option" where
  "read_exponent s =
     (case s of
        [] \<Rightarrow> Some (0, s)
      | c # cs \<Rightarrow>
          if c = CHR ''e'' \<or> c = CHR ''E''
          then
            (let negative = (case cs of [] \<Rightarrow> False | d # ds \<Rightarrow> d = CHR ''-'');
                 signed = (case cs of [] \<Rightarrow> False | d # ds \<Rightarrow> d = CHR ''-'' \<or> d = CHR ''+'');
                 ds = (if signed then tl cs else cs);
                 xs = takeWhile is_digit ds
             in if xs = [] then None
                else Some (if negative then - int (nat_of_digits xs) else int (nat_of_digits xs),
                           dropWhile is_digit ds))
          else Some (0, s))"

definition read_unsigned :: "string \<Rightarrow> (nat \<times> int \<times> string) option" where
  "read_unsigned s =
     (let ip = takeWhile is_digit s in
      if ip = [] \<or> (hd ip = CHR ''0'' \<and> length ip > 1) then None
      else
        (case read_fraction (dropWhile is_digit s) of
           None \<Rightarrow> None
         | Some (fp, s3) \<Rightarrow>
             (case read_exponent s3 of
                None \<Rightarrow> None
              | Some (x, s4) \<Rightarrow>
                  (case normalise (nat_of_digits (ip @ fp)) (x - int (length fp)) of
                     (m, e) \<Rightarrow> Some (m, e, s4)))))"

definition read_number :: "string \<Rightarrow> (int \<times> int \<times> string) option" where
  "read_number s =
     (case s of
        [] \<Rightarrow> None
      | c # cs \<Rightarrow>
          if c = CHR ''-''
          then (case read_unsigned cs of None \<Rightarrow> None | Some (m, e, rest) \<Rightarrow> Some (- int m, e, rest))
          else (case read_unsigned s of None \<Rightarrow> None | Some (m, e, rest) \<Rightarrow> Some (int m, e, rest)))"

text \<open>
  Modelled from the spec: string literals. The quotation mark, the backslash and the
  control characters are escaped when written, as \<open>JSON.stringify\<close> escapes them; every
  escape of JSON is understood when read, and the two escapes of a surrogate pair
  are read as the one character they stand for.
\<close>

definition hex_digit :: "nat \<Rightarrow> char" where
  "hex_digit d = (if d < 10 then char_of (48 + d) else char_of (87 + d))"

definition hex_val :: "char \<Rightarrow> nat option" where
  "hex_val c =
     (let n = (of_char c :: nat) in
      if 48 \<le> n \<and> n \<le> 57 then Some (n - 48)
      else if 97 \<le> n \<and> n \<le> 102 then Some (n - 87)
      else if 65 \<le> n \<and> n \<le> 70 then Some (n - 55)
      else None)"

definition utf8 :: "nat \<Rightarrow> string" where
  "utf8 n =
     (if n < 128 then [char_of n]
      else if n < 2048 then [char_of (192 + n div 64), char_of (128 + n mod 64)]
      else if n < 65536
      then [char_of (224 + n div 4096), char_of (128 + (n div 64) mod 64),
            char_of (128 + n mod 64)]
      else [char_of (240 + n div 262144), char_of (128 + (n div 4096) mod 64),
            char_of (128 + (n div 64) mod 64), char_of (128 + n mod 64)])"

definition escape_char :: "char \<Rightarrow> string" where
  "escape_char c =
     (if c = CHR 0x22 then [CHR 0x5C, CHR 0x22]
      else if c = CHR 0x5C then [CHR 0x5C, CHR 0x5C]
      else if c = CHR 0x08 then [CHR 0x5C, CHR ''b'']
      else if c = CHR 0x09 then [CHR 0x5C, CHR ''t'']
      else if c = CHR 0x0A then [CHR 0x5C, CHR ''n'']
      else if c = CHR 0x0C then [CHR 0x5C, CHR ''f'']
      else if c = CHR 0x0D then [CHR 0x5C, CHR ''r'']
      else if (of_char c :: nat) < 32
      then [CHR 0x5C, CHR ''u'', CHR ''0'', CHR ''0'',
            hex_digit ((of_char c :: nat) div 16), hex_digit ((of_char c :: nat) mod 16)]
      else [c])"

definition quote :: "string \<Rightarrow> string" where
  "quote s = CHR 0x22 # concat (map escape_char s) @ [CHR 0x22]"

definition unescape :: "char \<Rightarrow> char option" where
  "unescape e =
     (if e = CHR 0x22 then Some (CHR 0x22)
      else if e = CHR 0x5C then Some (CHR 0x5C)
      else if e = CHR ''/'' then Some (CHR ''/'')
      else if e = CHR ''b'' then Some (CHR 0x08)
      else if e = CHR ''f'' then Some (CHR 0x0C)
      else if e = CHR ''n'' then Some (CHR 0x0A)
      else if e = CHR ''r'' then Some (CHR 0x0D)
      else if e = CHR ''t'' then Some (CHR 0x09)
      else None)"

definition hex4 :: "char \<Rightarrow> char \<Rightarrow> char \<Rightarrow> char \<Rightarrow> nat option" where
  "hex4 h1 h2 h3 h4 =
     (case (hex_val h1, hex_val h2, hex_val h3, hex_val h4) of
        (Some a, Some b, Some c, Some d) \<Rightarrow> Some (((a * 16 + b) * 16 + c) * 16 + d)
      | _ \<Rightarrow> None)"

definition low_surrogate :: "string \<Rightarrow> nat option" where
  "low_surrogate s =
     (case s of
        b # u # l1 # l2 # l3 # l4 # rest \<Rightarrow>
          if b = CHR 0x5C \<and> u = CHR ''u'' then
            (case hex4 l1 l2 l3 l4 of
               None \<Rightarrow> None
             | Some l \<Rightarrow> if 56320 \<le> l \<and> l < 57344 then Some l else None)
          else None
      | _ \<Rightarrow> None)"

fun read_string :: "string \<Rightarrow> (string \<times> string) option" where
  "read_string [] = None"
| "read_string (c # cs) =
     (if c = CHR 0x22 then Some ([], cs)
      else if c = CHR 0x5C then
        (case cs of
           [] \<Rightarrow> None
         | e # cs' \<Rightarrow>
             if e = CHR ''u'' then
               (case cs' of
                  h1 # h2 # h3 # h4 # cs'' \<Rightarrow>
                    (case hex4 h1 h2 h3 h4 of
                       None \<Rightarrow> None
                     | Some n \<Rightarrow>
                         (case (if 55296 \<le> n \<and> n < 56320 then low_surrogate cs'' else None) of
                            Some l \<Rightarrow>
                              (case read_string (drop 6 cs'') of
                                 None \<Rightarrow> None
                               | Some (s, rest) \<Rightarrow>
                                   Some (utf8 (65536 + (n - 55296) * 1024 + (l - 56320)) @ s, rest))
                          | None \<Rightarrow>
                              (case read_string cs'' of
                                 None \<Rightarrow> None
                               | Some (s, rest) \<Rightarrow> Some (utf8 n @ s, rest))))
                | _ \<Rightarrow> None)
             else
               (case unescape e of
                  None \<Rightarrow> None
                | Some ch \<Rightarrow>
                    (case read_string cs' of
                       None \<Rightarrow> None
                     | Some (s, rest) \<Rightarrow> Some (ch # s, rest))))
      else if (of_char c :: nat) < 32 then None
      else
        (case read_string cs of
           None \<Rightarrow> None
         | Some (s, rest) \<Rightarrow> Some (c # s, rest)))"

text \<open>
  Modelled from the spec: the members of an object, as a JavaScript object keeps them.
  \<open>set_member\<close> is the assignment \<open>obj[k] = v\<close>: a name the object has keeps its place
  and takes the new value; a new name that is an array index (the decimal numeral of a
  number below \<open>2\<^sup>3\<^sup>2 - 1\<close>) is put among the array indices, in ascending order, before
  all other names; any other new name is put last. \<open>object_of\<close> builds the object that
  \<open>JSON.parse\<close> returns for the members it has read.
\<close>

definition is_index :: "string \<Rightarrow> bool" where
  "is_index k =
     (k \<noteq> [] \<and> list_all is_digit k \<and> (hd k \<noteq> CHR ''0'' \<or> length k = 1)
      \<and> int (nat_of_digits k) < 4294967295)"

definition key_before :: "string \<Rightarrow> string \<Rightarrow> bool" where
  "key_before k k' =
     (is_index k \<and> (\<not> is_index k' \<or> nat_of_digits k < nat_of_digits k'))"

fun set_member :: "string \<Rightarrow> json \<Rightarrow> (string \<times> json) list \<Rightarrow> (string \<times> json) list" where
  "set_member k v [] = [(k, v)]"
| "set_member k v (kv # kvs) =
     (if k = fst kv then (k, v) # kvs
      else if key_before k (fst kv) then (k, v) # kv # kvs
      else kv # set_member k v kvs)"

definition object_of :: "(string \<times> json) list \<Rightarrow> (string \<times> json) list" where
  "object_of kvs = foldl (\<lambda>obj kv. set_member (fst kv) (snd kv) obj) [] kvs"

text \<open>
  The JSON values that are values of JavaScript: every number is in its one form, and
  the names of the members of every object are distinct and in the order in which a
  JavaScript object enumerates them (array indices first, ascending).
\<close>

definition key_le :: "string \<Rightarrow> string \<Rightarrow> bool" where
  "key_le k k' = (is_index k' \<longrightarrow> is_index k \<and> nat_of_digits k \<le> nat_of_digits k')"

definition key_order :: "string list \<Rightarrow> bool" where
  "key_order ks = (distinct ks \<and> sorted_wrt key_le ks)"

fun canonical :: "json \<Rightarrow> bool" where
  "canonical (JNum m e) = canonical_number m e"
| "canonical (JArr xs) = list_all canonical xs"
| "canonical (JObj kvs) = (key_order (map fst kvs) \<and> list_all (\<lambda>kv. canonical (snd kv)) kvs)"
| "canonical j = True"

text \<open>
  Modelled from the spec: serialisation to JSON, as \<open>JSON.stringify\<close> writes it (no white
  space).
\<close>

fun stringify :: "json \<Rightarrow> string" where
  "stringify JNull = ''null''"
| "stringify (JBool b) = (if b then ''true'' else ''false'')"
| "stringify (JNum m e) = show_number m e"
| "stringify (JStr s) = quote s"
| "stringify (JArr xs) = ''['' @ join '','' (map stringify xs) @ '']''"
| "stringify (JObj kvs) =
     ''{'' @ join '','' (map (\<lambda>kv. quote (fst kv) @ '':'' @ stringify (snd kv)) kvs) @ ''}''"

text \<open>
  Modelled from the spec: parsing of JSON. The parser skips white space between
  tokens. Its first argument bounds the depth of the recursion; \<open>parse_json\<close> starts it
  with more than the length of the text, which is enough for every text that
  \<open>stringify\<close> writes.
\<close>

definition is_ws :: "char \<Rightarrow> bool" where
  "is_ws c = (c = CHR 0x20 \<or> c = CHR 0x09 \<or> c = CHR 0x0A \<or> c = CHR 0x0D)"

fun skip_ws :: "string \<Rightarrow> string" where
  "skip_ws [] = []"
| "skip_ws (c # cs) = (if is_ws c then skip_ws cs else c # cs)"

fun parse_value :: "nat \<Rightarrow> string \<Rightarrow> (json \<times> string) option"
  and parse_elements :: "nat \<Rightarrow> string \<Rightarrow> (json list \<times> string) option"
  and parse_members :: "nat \<Rightarrow> string \<Rightarrow> ((string \<times> json) list \<times> string) option" where
  "parse_value 0 s = None"
| "parse_value (Suc n) s =
     (case skip_ws s of
        [] \<Rightarrow> None
      | c # cs \<Rightarrow>
          if is_digit c \<or> c = CHR ''-'' then
            (case read_number (c # cs) of
               None \<Rightarrow> None
             | Some (m, e, rest) \<Rightarrow> Some (JNum m e, rest))
          else if c = CHR ''n'' then
            (if take 3 cs = ''ull'' then Some (JNull, drop 3 cs) else None)
          else if c = CHR ''t'' then
            (if take 3 cs = ''rue'' then Some (JBool True, drop 3 cs) else None)
          else if c = CHR ''f'' then
            (if take 4 cs = ''alse'' then Some (JBool False, drop 4 cs) else None)
          else if c = CHR 0x22 then
            (case read_string cs of
               None \<Rightarrow> None
             | Some (str, rest) \<Rightarrow> Some (JStr str, rest))
          else if c = CHR ''['' then
            (case skip_ws cs of
               [] \<Rightarrow> None
             | d # ds \<Rightarrow>
                 if d = CHR '']'' then Some (JArr [], ds)
                 else
                   (case parse_elements n cs of
                      None \<Rightarrow> None
                    | Some (xs, rest) \<Rightarrow> Some (JArr xs, rest)))
          else if c = CHR ''{'' then
            (case skip_ws cs of
               [] \<Rightarrow> None
             | d # ds \<Rightarrow>
                 if d = CHR ''}'' then Some (JObj [], ds)
                 else
                   (case parse_members n cs of
                      None \<Rightarrow> None
                    | Some (kvs, rest) \<Rightarrow> Some (JObj (object_of kvs), rest)))
          else None)"
| "parse_elements 0 s = None"
| "parse_elements (Suc n) s =
     (case parse_value n s of
        None \<Rightarrow> None
      | Some (x, rest) \<Rightarrow>
          (case skip_ws rest of
             [] \<Rightarrow> None
           | c # cs \<Rightarrow>
               if c = CHR '','' then
                 (case parse_elements n cs of
                    None \<Rightarrow> None
                  | Some (xs, rest') \<Rightarrow> Some (x # xs, rest'))
               else if c = CHR '']'' then Some ([x], cs)
               else None))"
| "parse_members 0 s = None"
| "parse_members (Suc n) s =
     (case skip_ws s of
        [] \<Rightarrow> None
      | q # cs \<Rightarrow>
          if q = CHR 0x22 then
            (case read_string cs of
               None \<Rightarrow> None
             | Some (k, rest) \<Rightarrow>
                 (case skip_ws rest of
                    [] \<Rightarrow> None
                  | c # cs' \<Rightarrow>
                      if c = CHR '':'' then
                        (case parse_value n cs' of
                           None \<Rightarrow> None
                         | Some (v, rest') \<Rightarrow>
                             (case skip_ws rest' of
                                [] \<Rightarrow> None
                              | d # ds \<Rightarrow>
                                  if d = CHR '','' then
                                    (case parse_members n ds of
                                       None \<Rightarrow> None
                                     | Some (kvs, rest'') \<Rightarrow> Some ((k, v) # kvs, rest''))
                                  else if d = CHR ''}'' then Some ([(k, v)], ds)
                                  else None))
                      else None))
          else None)"

definition parse_json :: "string \<Rightarrow> json option" where
  "parse_json s =
     (case parse_value (Suc (length s)) s of
        None \<Rightarrow> None
      | Some (j, rest) \<Rightarrow> if skip_ws rest = [] then Some j else None)"

text \<open>Notions for the proof that parsing inverts serialisation.\<close>

definition no_digit_start :: "string \<Rightarrow> bool" where
  "no_digit_start s = (case s of [] \<Rightarrow> True | c # cs \<Rightarrow> \<not> is_digit c)"

definition number_end :: "string \<Rightarrow> bool" where
  "number_end s =
     (case s of
        [] \<Rightarrow> True
      | c # cs \<Rightarrow> \<not> is_digit c \<and> c \<noteq> CHR ''.'' \<and> c \<noteq> CHR ''e'' \<and> c \<noteq> CHR ''E'')"

definition fraction_text :: "string \<Rightarrow> string" where
  "fraction_text fp = (if fp = [] then [] else CHR ''.'' # fp)"

definition exponent_text :: "int option \<Rightarrow> string" where
  "exponent_text ex = (case ex of None \<Rightarrow> [] | Some x \<Rightarrow> show_exponent x)"

fun first_ok :: "string \<Rightarrow> bool" where
  "first_ok [] = False"
| "first_ok (c # cs) = (\<not> is_ws c \<and> c \<noteq> CHR '']'' \<and> c \<noteq> CHR ''}'')"

definition roundtrips :: "json \<Rightarrow> bool" where
  "roundtrips j =
     (\<forall>fuel rest. length (stringify j) \<le> fuel \<longrightarrow> number_end rest \<longrightarrow>
        parse_value fuel (stringify j @ rest) = Some (j, rest))"

definition member_text :: "string \<times> json \<Rightarrow> string" where
  "member_text kv = quote (fst kv) @ '':'' @ stringify (snd kv)"

text \<open>
  Modelled from the spec: the encoder of plain JSON, and the error of a body that does
  not decode.
\<close>

definition MalformedAttachmentError :: error where
  "MalformedAttachmentError = OtherError ''Malformed attachment''"

definition jsonEncoder :: "json JsonEncoder" where
  "jsonEncoder =
     \<lparr>toBase64 = (\<lambda>j. base64_encode (stringify j)),
      fromBase64 =
        (\<lambda>s. case base64_decode s of
               None \<Rightarrow> Inl MalformedAttachmentError
             | Some t \<Rightarrow>
                 (case parse_json t of
                    None \<Rightarrow> Inl MalformedAttachmentError
                  | Some j \<Rightarrow> Inr j))\<rparr>"

text \<open>
  Modelled from the spec: a credential detail as a JSON object with the members
  \<open>credential\<close> and \<open>options\<close>; an option that is not set has no member. Reading is the
  view of the decoded JSON at the declared type: it fails on a JSON value that is not of
  this shape.
\<close>

definition optional_member :: "string \<Rightarrow> string option \<Rightarrow> (string \<times> json) list" where
  "optional_member k v = (case v of None \<Rightarrow> [] | Some s \<Rightarrow> [(k, JStr s)])"

definition options_toJSON :: "JsonLdFormatDataCredentialDetailOptions \<Rightarrow> json" where
  "options_toJSON opts =
     JObj ([(''proofType'', JStr (proofType opts))] @
           optional_member ''proofPurpose'' (proofPurpose opts) @
           optional_member ''created'' (created opts) @
           optional_member ''domain'' (domain opts) @
           optional_member ''challenge'' (challenge opts) @
           (case credentialStatus opts of None \<Rightarrow> [] | Some j \<Rightarrow> [(''credentialStatus'', j)]))"

definition detail_toJSON :: "JsonLdFormatDataCredentialDetail \<Rightarrow> json" where
  "detail_toJSON d =
     JObj [(''credential'', credential d), (''options'', options_toJSON (options d))]"

definition read_optional_member :: "(string \<times> json) list \<Rightarrow> string \<Rightarrow> string option option" where
  "read_optional_member kvs k =
     (case map_of kvs k of
        None \<Rightarrow> Some None
      | Some (JStr s) \<Rightarrow> Some (Some s)
      | Some _ \<Rightarrow> None)"

definition options_ofJSON :: "json \<Rightarrow> JsonLdFormatDataCredentialDetailOptions option" where
  "options_ofJSON j =
     (case j of
        JObj kvs \<Rightarrow>
          (case map_of kvs ''proofType'' of
             Some (JStr pt) \<Rightarrow>
               (case (read_optional_member kvs ''proofPurpose'', read_optional_member kvs ''created'',
                      read_optional_member kvs ''domain'', read_optional_member kvs ''challenge'') of
                  (Some pp, Some cr, Some dm, Some ch) \<Rightarrow>
                    Some \<lparr>proofType = pt, proofPurpose = pp, created = cr, domain = dm,
                          challenge = ch, credentialStatus = map_of kvs ''credentialStatus''\<rparr>
                | _ \<Rightarrow> None)
           | _ \<Rightarrow> None)
      | _ \<Rightarrow> None)"

definition detail_ofJSON :: "json \<Rightarrow> JsonLdFormatDataCredentialDetail option" where
  "detail_ofJSON j =
     (case j of
        JObj kvs \<Rightarrow>
          (case (map_of kvs ''credential'', map_of kvs ''options'') of
             (Some c, Some oj) \<Rightarrow>
               (case options_ofJSON oj of
                  None \<Rightarrow> None
                | Some opts \<Rightarrow> Some \<lparr>credential = c, options = opts\<rparr>)
           | _ \<Rightarrow> None)
      | _ \<Rightarrow> None)"

definition detailEncoder :: "JsonLdFormatDataCredentialDetail JsonEncoder" where
  "detailEncoder =
     \<lparr>toBase64 = (\<lambda>d. toBase64 jsonEncoder (detail_toJSON d)),
      fromBase64 =
        (\<lambda>s. case fromBase64 jsonEncoder s of
               Inl e \<Rightarrow> Inl e
             | Inr j \<Rightarrow>
                 (case detail_ofJSON j of
                    None \<Rightarrow> Inl MalformedAttachmentError
                  | Some d \<Rightarrow> Inr d))\<rparr>"

text \<open>
  A credential detail whose JSON parts (the credential, and the credential status when
  it is set) are values of JavaScript.
\<close>

definition wellformed_detail :: "JsonLdFormatDataCredentialDetail \<Rightarrow> bool" where
  "wellformed_detail d =
     (canonical (credential d)
      \<and> (case credentialStatus (options d) of None \<Rightarrow> True | Some s \<Rightarrow> canonical s))"

text \<open>
  Modelled from the spec: a verifiable credential as a JSON object: the members of the
  credential, and after them the member \<open>proof\<close>, which is the object of the one proof
  or the array of the objects of several. A property of a proof that is not set has no
  member.
\<close>

definition proof_toJSON :: "LinkedDataProof \<Rightarrow> json" where
  "proof_toJSON p =
     JObj ([(''type'', JStr (proof_type p))] @
           optional_member ''proofPurpose'' (proof_proofPurpose p) @
           [(''verificationMethod'', JStr (proof_verificationMethod p))] @
           optional_member ''created'' (proof_created p) @
           optional_member ''domain'' (proof_domain p) @
           optional_member ''challenge'' (proof_challenge p) @
           [(''proofValue'', proof_signature p)])"

definition proofs_toJSON :: "LinkedDataProof SingleOrArray \<Rightarrow> json" where
  "proofs_toJSON ps =
     (case ps of Single p \<Rightarrow> proof_toJSON p | Array qs \<Rightarrow> JArr (map proof_toJSON qs))"

definition credential_toJSON :: "W3cVerifiableCredential \<Rightarrow> json" where
  "credential_toJSON v =
     (case claims v of
        JObj kvs \<Rightarrow> JObj (kvs @ [(''proof'', proofs_toJSON (vc_proof v))])
      | j \<Rightarrow> j)"

definition proof_ofJSON :: "json \<Rightarrow> LinkedDataProof option" where
  "proof_ofJSON j =
     (case j of
        JObj kvs \<Rightarrow>
          (case (map_of kvs ''type'', map_of kvs ''verificationMethod'', map_of kvs ''proofValue'') of
             (Some (JStr t), Some (JStr vm), Some sig) \<Rightarrow>
               (case (read_optional_member kvs ''proofPurpose'', read_optional_member kvs ''created'',
                      read_optional_member kvs ''domain'', read_optional_member kvs ''challenge'') of
                  (Some pp, Some cr, Some dm, Some ch) \<Rightarrow>
                    Some \<lparr>proof_type = t, proof_proofPurpose = pp, proof_verificationMethod = vm,
                          proof_created = cr, proof_domain = dm, proof_challenge = ch,
                          proof_signature = sig\<rparr>
                | _ \<Rightarrow> None)
           | _ \<Rightarrow> None)
      | _ \<Rightarrow> None)"

definition proofs_ofJSON :: "json \<Rightarrow> LinkedDataProof SingleOrArray option" where
  "proofs_ofJSON j =
     (case j of
        JArr xs \<Rightarrow> map_option Array (those (map proof_ofJSON xs))
      | _ \<Rightarrow> map_option Single (proof_ofJSON j))"

definition issuer_ofJSON :: "(string \<times> json) list \<Rightarrow> Issuer option" where
  "issuer_ofJSON kvs =
     (case map_of kvs ''issuer'' of
        Some (JStr s) \<Rightarrow> Some (IssuerString s)
      | Some (JObj ikvs) \<Rightarrow>
          (case map_of ikvs ''id'' of Some (JStr s) \<Rightarrow> Some (IssuerObject s) | _ \<Rightarrow> None)
      | _ \<Rightarrow> None)"

definition credential_ofJSON :: "json \<Rightarrow> W3cVerifiableCredential option" where
  "credential_ofJSON j =
     (case j of
        JObj kvs \<Rightarrow>
          (case (map_of kvs ''proof'', issuer_ofJSON kvs) of
             (Some pj, Some i) \<Rightarrow>
               (case proofs_ofJSON pj of
                  None \<Rightarrow> None
                | Some ps \<Rightarrow>
                    Some \<lparr>issuer = i, claims = JObj (filter (\<lambda>kv. fst kv \<noteq> ''proof'') kvs),
                          vc_proof = ps\<rparr>)
           | _ \<Rightarrow> None)
      | _ \<Rightarrow> None)"

definition credentialEncoder :: "W3cVerifiableCredential JsonEncoder" where
  "credentialEncoder =
     \<lparr>toBase64 = (\<lambda>v. toBase64 jsonEncoder (credential_toJSON v)),
      fromBase64 =
        (\<lambda>s. case fromBase64 jsonEncoder s of
               Inl e \<Rightarrow> Inl e
             | Inr j \<Rightarrow>
                 (case credential_ofJSON j of
                    None \<Rightarrow> Inl MalformedAttachmentError
                  | Some v \<Rightarrow> Inr v))\<rparr>"

text \<open>
  A verifiable credential whose properties are an object of JavaScript with the issuer
  the credential has and no member \<open>proof\<close>, and whose proofs carry signature material
  that is a value of JavaScript.
\<close>

definition wellformed_credential :: "W3cVerifiableCredential \<Rightarrow> bool" where
  "wellformed_credential v =
     (case claims v of
        JObj kvs \<Rightarrow>
          map_of kvs ''proof'' = None \<and> issuer_ofJSON kvs = Some (issuer v)
          \<and> canonical (JObj kvs)
          \<and> (case vc_proof v of
                Single p \<Rightarrow> canonical (proof_signature p)
              | Array ps \<Rightarrow> list_all (\<lambda>p. canonical (proof_signature p)) ps)
      | _ \<Rightarrow> False)"

subsection \<open>The errors the specification names\<close>

text \<open>
  The source raises one class of error and tells the cases apart by the message. The
  names below are the specification's names for these messages.
\<close>

definition UnsupportedOptionError :: "string list \<Rightarrow> error" where
  "UnsupportedOptionError names =
     AriesFrameworkError (''Some fields are not currently supported in credential options: '' @
       join '', '' names)"

definition ProofArrayUnsupportedError :: error where
  "ProofArrayUnsupportedError = AriesFrameworkError ''Credential proof arrays are not supported''"

definition CreatedMismatchError :: error where
  "CreatedMismatchError = AriesFrameworkError
     ''Received credential proof created does not match created from credential request''"

definition UnsupportedProofTypeError :: "string \<Rightarrow> error" where
  "UnsupportedProofTypeError pt = AriesFrameworkError (''No Key Type found for proofType '' @ pt)"

definition VerificationMethodNotFoundError :: "string list \<Rightarrow> error" where
  "VerificationMethodNotFoundError ks =
     AriesFrameworkError (''Missing verification method for key type '' @ join '','' ks)"

definition VerificationFailedError :: "string option \<Rightarrow> error" where
  "VerificationFailedError reason =
     AriesFrameworkError (''Failed to validate credential, error = '' @
       (case reason of None \<Rightarrow> ''undefined'' | Some m \<Rightarrow> m))"

subsection \<open>The option fields that are set\<close>

text \<open>
  The names among \<open>challenge\<close>, \<open>domain\<close>, \<open>credentialStatus\<close> and \<open>created\<close> that the
  options set, in this order.
\<close>

definition setUnsupportedFields :: "JsonLdFormatDataCredentialDetailOptions \<Rightarrow> string list" where
  "setUnsupportedFields opts =
     (if challenge opts \<noteq> None then [''challenge''] else []) @
     (if domain opts \<noteq> None then [''domain''] else []) @
     (if credentialStatus opts \<noteq> None then [''credentialStatus''] else []) @
     (if created opts \<noteq> None then [''created''] else [])"

subsection \<open>Example data\<close>

text \<open>
  An issuer \<open>did:example:123\<close> with three keys, a request for an Ed25519 proof, the
  credential issued for it, and test doubles for the collaborators and the imported
  helpers. The attachments are encoded with the codec above.
\<close>

definition example_credential :: json where
  "example_credential =
     JObj [(''issuer'', JStr ''did:example:123''),
           (''credentialSubject'', JObj [(''name'', JStr ''Alice'')])]"

definition example_options :: JsonLdFormatDataCredentialDetailOptions where
  "example_options =
     \<lparr>proofType = ''Ed25519Signature2018'', proofPurpose = Some ''assertionMethod'',
      created = None, domain = None, challenge = None, credentialStatus = None\<rparr>"

definition example_request :: JsonLdFormatDataCredentialDetail where
  "example_request = \<lparr>credential = example_credential, options = example_options\<rparr>"

definition example_proof :: LinkedDataProof where
  "example_proof =
     \<lparr>proof_type = ''Ed25519Signature2018'', proof_proofPurpose = Some ''assertionMethod'',
      proof_verificationMethod = ''did:example:123#key-1'',
      proof_created = Some ''2020-01-01T00:00:00Z'',
      proof_domain = None, proof_challenge = None, proof_signature = JStr ''z58DAdFfa9''\<rparr>"

definition example_vc :: W3cVerifiableCredential where
  "example_vc =
     \<lparr>issuer = IssuerString ''did:example:123'', claims = example_credential,
      vc_proof = Single example_proof\<rparr>"

definition example_fromJSON_W3cCredential :: "json \<Rightarrow> error + W3cCredential" where
  "example_fromJSON_W3cCredential j =
     (case j of
        JObj kvs \<Rightarrow>
          (case map_of kvs ''issuer'' of
             Some (JStr s) \<Rightarrow> Inr \<lparr>issuer = IssuerString s, claims = j\<rparr>
           | Some (JObj ikvs) \<Rightarrow>
               (case map_of ikvs ''id'' of
                  Some (JStr s) \<Rightarrow> Inr \<lparr>issuer = IssuerObject s, claims = j\<rparr>
                | _ \<Rightarrow> Inl (OtherError ''validation failed''))
           | _ \<Rightarrow> Inl (OtherError ''validation failed''))
      | _ \<Rightarrow> Inl (OtherError ''validation failed''))"

text \<open>
  A double of \<open>JsonTransformer\<close>: \<open>toJSON\<close> writes the properties of the credential and
  then its proof, and \<open>fromJSON\<close> knows the JSON of the example credential.
\<close>

definition example_toJSON :: "W3cVerifiableCredential \<Rightarrow> json" where
  "example_toJSON v = credential_toJSON v"

definition example_helpers :: Helpers where
  "example_helpers =
     \<lparr>fromJSON_JsonLdCredentialDetail = (\<lambda>d. Inr ()),
      fromJSON_W3cCredential = example_fromJSON_W3cCredential,
      fromJSON_W3cVerifiableCredential =
        (\<lambda>j. if j = example_toJSON example_vc then Inr example_vc
             else Inl (OtherError ''validation failed'')),
      toJSON = example_toJSON,
      areObjectsEqual = (=)\<rparr>"

text \<open>
  The encoder of a credential instance: the JSON of the instance, encoded as JSON is.
\<close>

definition example_credentialEncoder :: "W3cVerifiableCredential JsonEncoder" where
  "example_credentialEncoder = credentialEncoder"

text \<open>The attachments that encode a request and the JSON of a credential.\<close>

definition request_attachment :: "JsonLdFormatDataCredentialDetail \<Rightarrow> V1Attachment" where
  "request_attachment d = getFormatData detailEncoder d ''request-1''"

definition credential_attachment :: "json \<Rightarrow> V1Attachment" where
  "credential_attachment j = getFormatData jsonEncoder j ''credential-1''"

definition attachment_with :: "string \<Rightarrow> V1Attachment" where
  "attachment_with body =
     \<lparr>attachment_id = ''attachment-1'', mimeType = ''application/json'',
      attachment_data = \<lparr>base64 = body\<rparr>\<rparr>"

definition example_doc :: DidDocument where
  "example_doc =
     \<lparr>did = ''did:example:123'',
      doc_verificationMethod =
        [\<lparr>vm_id = ''did:example:123#key-0'', vm_type = ''X25519KeyAgreementKey2019'',
          vm_controller = ''did:example:123''\<rparr>,
         \<lparr>vm_id = ''did:example:123#key-1'', vm_type = ''Ed25519VerificationKey2018'',
          vm_controller = ''did:example:123''\<rparr>,
         \<lparr>vm_id = ''did:example:123#key-2'', vm_type = ''Ed25519VerificationKey2018'',
          vm_controller = ''did:example:123''\<rparr>]\<rparr>"

definition example_ctx :: AgentContext where
  "example_ctx =
     \<lparr>resolveDidDocument =
        (\<lambda>d. if d = ''did:example:123'' then Inr example_doc
             else Inl (OtherError ''Unable to resolve did'')),
      getVerificationMethodTypesByProofType =
        (\<lambda>pt. if pt = ''Ed25519Signature2018''
              then Inr (Some [''Ed25519VerificationKey2018'', ''Ed25519VerificationKey2020''])
              else if pt = ''BbsBlsSignature2020''
              then Inr (Some [''Bls12381G2Key2020''])
              else Inr (Some [])),
      signCredential =
        (\<lambda>so. Inr \<lparr>issuer = issuer (sign_credential so), claims = claims (sign_credential so),
                   vc_proof = Single (example_proof\<lparr>proof_type := sign_proofType so,
                     proof_verificationMethod := sign_verificationMethod so\<rparr>)\<rparr>),
      verifyCredential = (\<lambda>v. Inr (Some \<lparr>verified = True, verify_error = None\<rparr>)),
      storeCredential = (\<lambda>v. Inr \<lparr>record_id = ''record-1''\<rparr>)\<rparr>"

definition example_supplied :: "CredentialFormats option" where
  "example_supplied = Some \<lparr>jsonld = Some \<lparr>verificationMethod = Some ''did:example:123#key-9''\<rparr>\<rparr>"

text \<open>A table of key types that fails.\<close>

definition example_ctx_no_suite :: AgentContext where
  "example_ctx_no_suite =
     example_ctx\<lparr>getVerificationMethodTypesByProofType :=
       (\<lambda>pt. Inl (OtherError ''No suite for proof type''))\<rparr>"

text \<open>
  A JSON value with numbers that have a fraction and an exponent, and with a member
  whose name is an array index.
\<close>

definition example_json :: json where
  "example_json =
     JObj [(''7'', JNum 15 (- 1)),
           (''values'', JArr [JNum (- 3) (- 7), JNum 1 21, JNum 12 1, JNull, JBool True]),
           (''text'', JStr [CHR ''a'', CHR 0x22, CHR 0x0A, CHR ''b''])]"

text \<open>
  A proposal as it arrives: the JSON of a detail with a member the declared type does
  not have (\<open>comment\<close>) and a claim that is a number with a fraction; and the body of the
  attachment that carries it, the base64 of its JSON text.
\<close>

definition example_proposal :: json where
  "example_proposal =
     JObj [(''credential'',
             JObj [(''issuer'', JStr ''did:example:123''),
                   (''credentialSubject'',
                     JObj [(''name'', JStr ''Alice''), (''score'', JNum 15 (- 1))])]),
           (''options'',
             JObj [(''proofType'', JStr ''Ed25519Signature2018''),
                   (''proofPurpose'', JStr ''assertionMethod'')]),
           (''comment'', JStr ''relayed as it is'')]"

definition example_proposal_body :: string where
  "example_proposal_body = ''eyJjcmVkZW50aWFsIjp7Imlzc3VlciI6ImRpZDpleGFtcGxlOjEyMyIsImNyZWRlbnRpYWxTdWJqZWN0Ijp7Im5hbWUiOiJBbGljZSIsInNjb3JlIjoxLjV9fSwib3B0aW9ucyI6eyJwcm9vZlR5cGUiOiJFZDI1NTE5U2lnbmF0dXJlMjAxOCIsInByb29mUHVycG9zZSI6ImFzc2VydGlvbk1ldGhvZCJ9LCJjb21tZW50IjoicmVsYXllZCBhcyBpdCBpcyJ9''"

text \<open>
  A proposal written by hand: white space between the tokens, the numeral \<open>1.50\<close>, a
  member whose name is an array index after another member, and the member \<open>issuer\<close>
  twice. \<open>example_relayed\<close> is the value it decodes to, and \<open>example_relayed_body\<close> the
  base64 of the JSON text of that value.
\<close>

definition example_handwritten_body :: string where
  "example_handwritten_body = ''eyAib3B0aW9ucyIgOiB7InByb29mVHlwZSI6ICJFZDI1NTE5U2lnbmF0dXJlMjAxOCJ9LAogICJjcmVkZW50aWFsIjogeyJpc3N1ZXIiOiAiZGlkOmV4YW1wbGU6MTIzIiwgIjAiOiAxLjUwLCAiaXNzdWVyIjogImRpZDpleGFtcGxlOjQ1NiJ9IH0=''"

definition example_relayed :: json where
  "example_relayed =
     JObj [(''options'', JObj [(''proofType'', JStr ''Ed25519Signature2018'')]),
           (''credential'', JObj [(''0'', JNum 15 (- 1)), (''issuer'', JStr ''did:example:456'')])]"

definition example_relayed_body :: string where
  "example_relayed_body = ''eyJvcHRpb25zIjp7InByb29mVHlwZSI6IkVkMjU1MTlTaWduYXR1cmUyMDE4In0sImNyZWRlbnRpYWwiOnsiMCI6MS41LCJpc3N1ZXIiOiJkaWQ6ZXhhbXBsZTo0NTYifX0=''"

section \<open>Properties\<close>

subsection \<open>The attachment codec inverts\<close>

lemma index_of_nth:
  "distinct xs \<Longrightarrow> i < length xs \<Longrightarrow> index_of (xs ! i) xs = Some i"
proof (induction xs arbitrary: i)
  case Nil
  then show ?case by simp
next
  case (Cons x xs)
  show ?case
  proof (cases i)
    case 0
    then show ?thesis by simp
  next
    case (Suc j)
    with Cons.prems have "xs ! j \<in> set xs" "x \<notin> set xs" by auto
    then have "xs ! j \<noteq> x" by auto
    with Suc Cons show ?thesis by simp
  qed
qed

lemma index_of_notin: "c \<notin> set xs \<Longrightarrow> index_of c xs = None"
  by (induction xs) auto

lemma distinct_base64_alphabet: "distinct base64_alphabet"
  by (simp add: base64_alphabet_def)

lemma length_base64_alphabet: "length base64_alphabet = 64"
  by (simp add: base64_alphabet_def)

lemma base64_index_char: "i < 64 \<Longrightarrow> base64_index (base64_char i) = Some i"
  by (simp add: base64_index_def base64_char_def index_of_nth distinct_base64_alphabet
      length_base64_alphabet)

lemma pad_notin_alphabet: "CHR ''='' \<notin> set base64_alphabet"
  by (simp add: base64_alphabet_def)

lemma base64_char_not_pad: "i < 64 \<Longrightarrow> base64_char i \<noteq> CHR ''=''"
proof -
  assume "i < 64"
  then have "base64_alphabet ! i \<in> set base64_alphabet"
    by (simp add: length_base64_alphabet)
  with pad_notin_alphabet show ?thesis
    by (auto simp: base64_char_def)
qed

lemma div_of_sum: "(b::nat) < n \<Longrightarrow> (a * n + b) div n = a"
  by simp

lemma mod_of_sum: "(b::nat) < n \<Longrightarrow> (a * n + b) mod n = b"
  by simp

lemma sextet_bound1: "(x::nat) < 256 \<Longrightarrow> x div 4 < 64"
  by (simp add: less_mult_imp_div_less)

lemma sextet_bound2: "(x::nat) mod 4 * 16 < 64"
proof -
  have "x mod 4 < 4" by simp
  then show ?thesis by linarith
qed

lemma sextet_bound3: "(y::nat) < 256 \<Longrightarrow> x mod 4 * 16 + y div 16 < 64"
proof -
  assume "y < 256"
  then have "y div 16 < 16" by (simp add: less_mult_imp_div_less)
  moreover have "x mod 4 < 4" by simp
  ultimately show ?thesis by linarith
qed

lemma sextet_bound4: "(y::nat) mod 16 * 4 < 64"
proof -
  have "y mod 16 < 16" by simp
  then show ?thesis by linarith
qed

lemma sextet_bound5: "(z::nat) < 256 \<Longrightarrow> y mod 16 * 4 + z div 64 < 64"
proof -
  assume "z < 256"
  then have "z div 64 < 4" by (simp add: less_mult_imp_div_less)
  moreover have "y mod 16 < 16" by simp
  ultimately show ?thesis by linarith
qed

lemma sextet_byte1: "(x::nat) div 4 * 4 + (x mod 4 * 16) div 16 = x"
  by simp

lemma sextet_byte2: "(y::nat) < 256 \<Longrightarrow> x div 4 * 4 + (x mod 4 * 16 + y div 16) div 16 = x"
proof -
  assume "y < 256"
  then have "y div 16 < 16" by (simp add: less_mult_imp_div_less)
  then have "(x mod 4 * 16 + y div 16) div 16 = x mod 4" by (rule div_of_sum)
  then show ?thesis by simp
qed

lemma sextet_byte3: "(y::nat) < 256 \<Longrightarrow>
    (x mod 4 * 16 + y div 16) mod 16 * 16 + (y mod 16 * 4) div 4 = y"
proof -
  assume "y < 256"
  then have "y div 16 < 16" by (simp add: less_mult_imp_div_less)
  then have "(x mod 4 * 16 + y div 16) mod 16 = y div 16" by (rule mod_of_sum)
  then show ?thesis by simp
qed

lemma sextet_byte4: "(y::nat) < 256 \<Longrightarrow> (z::nat) < 256 \<Longrightarrow>
    (x mod 4 * 16 + y div 16) mod 16 * 16 + (y mod 16 * 4 + z div 64) div 4 = y"
proof -
  assume "y < 256" "z < 256"
  then have "y div 16 < 16" "z div 64 < 4" by (simp_all add: less_mult_imp_div_less)
  then have "(x mod 4 * 16 + y div 16) mod 16 = y div 16"
    and "(y mod 16 * 4 + z div 64) div 4 = y mod 16"
    by (simp_all only: mod_of_sum div_of_sum)
  then show ?thesis by simp
qed

lemma sextet_byte5: "(z::nat) < 256 \<Longrightarrow> (y mod 16 * 4 + z div 64) mod 4 * 64 + z mod 64 = z"
proof -
  assume "z < 256"
  then have "z div 64 < 4" by (simp add: less_mult_imp_div_less)
  then have "(y mod 16 * 4 + z div 64) mod 4 = z div 64" by (rule mod_of_sum)
  then show ?thesis by simp
qed

lemma decode_group:
  assumes "i0 < 64" "i1 < 64" "i2 < 64" "i3 < 64"
  shows "base64_decode (base64_char i0 # base64_char i1 # base64_char i2 # base64_char i3 # rest) =
     (case base64_decode rest of
        None \<Rightarrow> None
      | Some bs \<Rightarrow>
          Some (char_of (i0 * 4 + i1 div 16) # char_of ((i1 mod 16) * 16 + i2 div 4) #
                char_of ((i2 mod 4) * 64 + i3) # bs))"
  using assms by (simp add: base64_index_char base64_char_not_pad)

lemma decode_group_pad1:
  assumes "i0 < 64" "i1 < 64" "i2 < 64"
  shows "base64_decode [base64_char i0, base64_char i1, base64_char i2, CHR ''=''] =
     Some [char_of (i0 * 4 + i1 div 16), char_of ((i1 mod 16) * 16 + i2 div 4)]"
  using assms by (simp add: base64_index_char base64_char_not_pad)

lemma decode_group_pad2:
  assumes "i0 < 64" "i1 < 64"
  shows "base64_decode [base64_char i0, base64_char i1, CHR ''='', CHR ''=''] =
     Some [char_of (i0 * 4 + i1 div 16)]"
  using assms by (simp add: base64_index_char)

lemma base64_roundtrip: "base64_decode (base64_encode bs) = Some bs"
proof (induction bs rule: base64_encode.induct)
  case 1
  then show ?case by simp
next
  case (2 a)
  define x :: nat where "x = of_char a"
  have enc: "base64_encode [a] =
      [base64_char (x div 4), base64_char (x mod 4 * 16), CHR ''='', CHR ''='']"
    by (simp add: x_def Let_def)
  have x: "x < 256" by (simp add: x_def)
  have "base64_decode (base64_encode [a]) =
      Some [char_of (x div 4 * 4 + (x mod 4 * 16) div 16)]"
    unfolding enc by (rule decode_group_pad2) (rule sextet_bound1 [OF x], rule sextet_bound2)
  also have "x div 4 * 4 + (x mod 4 * 16) div 16 = x" by (rule sextet_byte1)
  finally show ?case by (simp add: x_def)
next
  case (3 a b)
  define x :: nat where "x = of_char a"
  define y :: nat where "y = of_char b"
  have enc: "base64_encode [a, b] =
      [base64_char (x div 4), base64_char (x mod 4 * 16 + y div 16),
       base64_char (y mod 16 * 4), CHR ''='']"
    by (simp add: x_def y_def Let_def)
  have x: "x < 256" and y: "y < 256" by (simp_all add: x_def y_def)
  have "base64_decode (base64_encode [a, b]) =
      Some [char_of (x div 4 * 4 + (x mod 4 * 16 + y div 16) div 16),
            char_of ((x mod 4 * 16 + y div 16) mod 16 * 16 + (y mod 16 * 4) div 4)]"
    unfolding enc
    by (rule decode_group_pad1)
      (rule sextet_bound1 [OF x], rule sextet_bound3 [OF y], rule sextet_bound4)
  also have "x div 4 * 4 + (x mod 4 * 16 + y div 16) div 16 = x" by (rule sextet_byte2 [OF y])
  also have "(x mod 4 * 16 + y div 16) mod 16 * 16 + (y mod 16 * 4) div 4 = y"
    by (rule sextet_byte3 [OF y])
  finally show ?case by (simp add: x_def y_def)
next
  case (4 a b c rest)
  define x :: nat where "x = of_char a"
  define y :: nat where "y = of_char b"
  define z :: nat where "z = of_char c"
  have enc: "base64_encode (a # b # c # rest) =
      base64_char (x div 4) # base64_char (x mod 4 * 16 + y div 16) #
      base64_char (y mod 16 * 4 + z div 64) # base64_char (z mod 64) # base64_encode rest"
    by (simp add: x_def y_def z_def Let_def)
  have x: "x < 256" and y: "y < 256" and z: "z < 256" by (simp_all add: x_def y_def z_def)
  have "base64_decode (base64_encode (a # b # c # rest)) =
      (case base64_decode (base64_encode rest) of
         None \<Rightarrow> None
       | Some bs \<Rightarrow>
          Some (char_of (x div 4 * 4 + (x mod 4 * 16 + y div 16) div 16) #
                char_of ((x mod 4 * 16 + y div 16) mod 16 * 16 + (y mod 16 * 4 + z div 64) div 4) #
                char_of ((y mod 16 * 4 + z div 64) mod 4 * 64 + z mod 64) # bs))"
    unfolding enc
    by (rule decode_group)
      (rule sextet_bound1 [OF x], rule sextet_bound3 [OF y], rule sextet_bound5 [OF z], simp)
  also have "x div 4 * 4 + (x mod 4 * 16 + y div 16) div 16 = x" by (rule sextet_byte2 [OF y])
  also have "(x mod 4 * 16 + y div 16) mod 16 * 16 + (y mod 16 * 4 + z div 64) div 4 = y"
    by (rule sextet_byte4 [OF y z])
  also have "(y mod 16 * 4 + z div 64) mod 4 * 64 + z mod 64 = z" by (rule sextet_byte5 [OF z])
  finally show ?case by (simp add: x_def y_def z_def "4.IH")
qed

declare show_nat.simps [simp del]
declare normalise.simps [simp del]

lemma is_digit_digit_char: "d < 10 \<Longrightarrow> is_digit (digit_char d)"
  by (simp add: is_digit_def digit_char_def)

lemma digit_val_digit_char: "d < 10 \<Longrightarrow> digit_val (digit_char d) = d"
  by (simp add: digit_val_def digit_char_def)

lemma show_nat_digits: "c \<in> set (show_nat n) \<Longrightarrow> is_digit c"
proof (induction n arbitrary: c rule: show_nat.induct)
  case (1 n)
  show ?case
  proof (cases "n < 10")
    case True
    with "1.prems" show ?thesis
      by (simp add: show_nat.simps [of n] is_digit_digit_char)
  next
    case False
    with "1.prems" "1.IH" show ?thesis
      by (auto simp: show_nat.simps [of n] is_digit_digit_char)
  qed
qed

lemma show_nat_nonempty: "show_nat n \<noteq> []"
  by (subst show_nat.simps) simp

lemma show_nat_start: "\<exists>c cs. show_nat n = c # cs \<and> is_digit c"
proof -
  obtain c cs where "show_nat n = c # cs"
    using show_nat_nonempty [of n] by (cases "show_nat n") auto
  moreover from this have "is_digit c"
    using show_nat_digits [of c n] by simp
  ultimately show ?thesis by blast
qed

lemma show_nat_hd: "0 < n \<Longrightarrow> hd (show_nat n) \<noteq> CHR ''0''"
proof (induction n rule: show_nat.induct)
  case (1 n)
  show ?case
  proof (cases "n < 10")
    case True
    then have "digit_val (digit_char n) = n"
      by (rule digit_val_digit_char)
    moreover have "digit_val CHR ''0'' = 0"
      by (simp add: digit_val_def)
    ultimately have "digit_char n \<noteq> CHR ''0''"
      using "1.prems" by auto
    with True show ?thesis
      by (simp add: show_nat.simps [of n])
  next
    case False
    then have "0 < n div 10" by simp
    with False "1.IH" show ?thesis
      by (simp add: show_nat.simps [of n] show_nat_nonempty)
  qed
qed

lemma nat_of_digits_acc:
  "foldl (\<lambda>a c. a * 10 + digit_val c) acc ds = acc * 10 ^ length ds + nat_of_digits ds"
  unfolding nat_of_digits_def
proof (induction ds arbitrary: acc)
  case Nil
  show ?case by simp
next
  case (Cons d ds)
  let ?f = "\<lambda>a c. a * 10 + digit_val c"
  have "foldl ?f acc (d # ds) = (acc * 10 + digit_val d) * 10 ^ length ds + foldl ?f 0 ds"
    using Cons [of "acc * 10 + digit_val d"] by simp
  moreover have "foldl ?f 0 (d # ds) = digit_val d * 10 ^ length ds + foldl ?f 0 ds"
    using Cons [of "digit_val d"] by simp
  ultimately show ?case
    by (simp add: algebra_simps del: foldl_Cons)
qed

lemma nat_of_digits_append:
  "nat_of_digits (xs @ ys) = nat_of_digits xs * 10 ^ length ys + nat_of_digits ys"
  using nat_of_digits_acc [of "nat_of_digits xs" ys] by (simp add: nat_of_digits_def)

lemma nat_of_digits_zeros: "nat_of_digits (replicate z CHR ''0'') = 0"
  by (induction z) (simp_all add: nat_of_digits_def digit_val_def)

lemma nat_of_digits_show_nat: "nat_of_digits (show_nat n) = n"
proof (induction n rule: show_nat.induct)
  case (1 n)
  show ?case
  proof (cases "n < 10")
    case True
    then show ?thesis
      by (simp add: show_nat.simps [of n] digit_val_digit_char nat_of_digits_def)
  next
    case False
    with "1.IH" show ?thesis
      by (simp add: show_nat.simps [of n] nat_of_digits_append)
        (simp add: nat_of_digits_def digit_val_digit_char)
  qed
qed

lemma takeWhile_no_digit: "no_digit_start rest \<Longrightarrow> takeWhile is_digit rest = []"
  by (cases rest) (simp_all add: no_digit_start_def)

lemma dropWhile_no_digit: "no_digit_start rest \<Longrightarrow> dropWhile is_digit rest = rest"
  by (cases rest) (simp_all add: no_digit_start_def)

lemma takeWhile_digits:
  "\<forall>c \<in> set ds. is_digit c \<Longrightarrow> no_digit_start rest \<Longrightarrow> takeWhile is_digit (ds @ rest) = ds"
  by (simp add: takeWhile_no_digit)

lemma dropWhile_digits:
  "\<forall>c \<in> set ds. is_digit c \<Longrightarrow> no_digit_start rest \<Longrightarrow> dropWhile is_digit (ds @ rest) = rest"
  by (simp add: dropWhile_no_digit)

lemma normalise_zero: "normalise 0 e = (0, 0)"
  by (simp add: normalise.simps)

lemma normalise_fixed: "0 < m \<Longrightarrow> m mod 10 \<noteq> 0 \<Longrightarrow> normalise m e = (m, e)"
  by (simp add: normalise.simps)

lemma normalise_shift:
  "0 < m \<Longrightarrow> m mod 10 \<noteq> 0 \<Longrightarrow> normalise (m * 10 ^ z) e = (m, e + int z)"
proof (induction z arbitrary: e)
  case 0
  then show ?case by (simp add: normalise_fixed)
next
  case (Suc z)
  have "normalise (m * 10 ^ Suc z) e = normalise (m * 10 ^ z) (e + 1)"
    using Suc.prems by (subst normalise.simps) simp
  with Suc show ?case by simp
qed

lemma normalise_canonical:
  "normalise m e = (m', e') \<Longrightarrow> canonical_number (int m') e' \<and> canonical_number (- int m') e'"
proof (induction m e rule: normalise.induct)
  case (1 m e)
  show ?case
  proof (cases "m = 0")
    case True
    with "1.prems" show ?thesis
      by (simp add: normalise.simps canonical_number_def)
  next
    case False
    show ?thesis
    proof (cases "m mod 10 = 0")
      case True
      with False "1.prems" have "normalise (m div 10) (e + 1) = (m', e')"
        by (simp add: normalise.simps [of m])
      with "1.IH" False True show ?thesis by simp
    next
      case nonzero: False
      with False "1.prems" have "m' = m" "e' = e"
        by (simp_all add: normalise.simps [of m])
      moreover from nonzero have "int m mod 10 \<noteq> 0 \<and> (- int m) mod 10 \<noteq> 0"
        by presburger
      ultimately show ?thesis
        using False by (simp add: canonical_number_def)
    qed
  qed
qed


lemma number_end_no_digit: "number_end rest \<Longrightarrow> no_digit_start rest"
  by (cases rest) (simp_all add: number_end_def no_digit_start_def)

lemma no_digit_start_mark:
  "\<not> is_digit c \<Longrightarrow> no_digit_start (c # s)"
  by (simp add: no_digit_start_def)

lemma not_digit_marks:
  "\<not> is_digit CHR ''.''" "\<not> is_digit CHR ''e''" "\<not> is_digit CHR ''-''" "\<not> is_digit CHR ''+''"
  by (simp_all add: is_digit_def)

lemma read_fraction_some:
  "fp \<noteq> [] \<Longrightarrow> \<forall>c \<in> set fp. is_digit c \<Longrightarrow> no_digit_start rest \<Longrightarrow>
   read_fraction (CHR ''.'' # fp @ rest) = Some (fp, rest)"
  by (simp add: read_fraction_def takeWhile_no_digit dropWhile_no_digit)

lemma read_fraction_none:
  "(case s of [] \<Rightarrow> True | c # cs \<Rightarrow> c \<noteq> CHR ''.'') \<Longrightarrow> read_fraction s = Some ([], s)"
  by (cases s) (simp_all add: read_fraction_def)

lemma read_exponent_some:
  assumes "no_digit_start rest"
  shows "read_exponent (show_exponent x @ rest) = Some (x, rest)"
proof -
  have digits: "\<forall>c \<in> set (show_nat (nat \<bar>x\<bar>)). is_digit c"
    using show_nat_digits by blast
  show ?thesis
    using assms
    by (simp add: read_exponent_def show_exponent_def digits takeWhile_no_digit
        dropWhile_no_digit show_nat_nonempty nat_of_digits_show_nat)
qed

lemma read_exponent_none:
  "(case s of [] \<Rightarrow> True | c # cs \<Rightarrow> c \<noteq> CHR ''e'' \<and> c \<noteq> CHR ''E'') \<Longrightarrow>
   read_exponent s = Some (0, s)"
  by (cases s) (simp_all add: read_exponent_def)

lemma read_unsigned_text:
  assumes ip: "ip \<noteq> []" "\<forall>c \<in> set ip. is_digit c" "hd ip \<noteq> CHR ''0'' \<or> length ip = 1"
    and fp: "\<forall>c \<in> set fp. is_digit c"
    and rest: "number_end rest"
    and norm: "normalise (nat_of_digits (ip @ fp))
        ((case ex of None \<Rightarrow> 0 | Some x \<Rightarrow> x) - int (length fp)) = (m, e)"
  shows "read_unsigned (ip @ fraction_text fp @ exponent_text ex @ rest) = Some (m, e, rest)"
proof -
  let ?exp = "exponent_text ex @ rest"
  let ?tail = "fraction_text fp @ ?exp"
  have exp_start: "no_digit_start ?exp"
    using rest
    by (cases ex) (simp_all add: exponent_text_def show_exponent_def number_end_no_digit
        no_digit_start_mark not_digit_marks)
  have exp_not_dot: "(case ?exp of [] \<Rightarrow> True | c # cs \<Rightarrow> c \<noteq> CHR ''.'')"
    using rest
    by (cases ex; cases rest) (simp_all add: exponent_text_def show_exponent_def number_end_def)
  have tail_start: "no_digit_start ?tail"
    using exp_start by (simp add: fraction_text_def no_digit_start_mark not_digit_marks)
  have int_part: "takeWhile is_digit (ip @ ?tail) = ip" "dropWhile is_digit (ip @ ?tail) = ?tail"
    using ip(2) tail_start by (rule takeWhile_digits, rule dropWhile_digits)
  have fraction: "read_fraction ?tail = Some (fp, ?exp)"
  proof (cases "fp = []")
    case True
    with exp_not_dot show ?thesis
      by (simp add: fraction_text_def read_fraction_none)
  next
    case False
    with fp exp_start show ?thesis
      by (simp add: fraction_text_def read_fraction_some)
  qed
  have exponent: "read_exponent ?exp = Some ((case ex of None \<Rightarrow> 0 | Some x \<Rightarrow> x), rest)"
  proof (cases ex)
    case None
    with rest show ?thesis
      by (cases rest) (simp_all add: exponent_text_def read_exponent_none number_end_def)
  next
    case (Some x)
    with rest show ?thesis
      by (simp add: exponent_text_def read_exponent_some number_end_no_digit)
  qed
  show ?thesis
    unfolding read_unsigned_def Let_def int_part
    using ip(1) ip(3) fraction exponent norm by auto
qed


lemma is_digit_zero: "is_digit CHR ''0''"
  by (simp add: is_digit_def)

lemma read_unsigned_show_number:
  assumes pos: "0 < a" and last: "a mod 10 \<noteq> 0" and rest: "number_end rest"
  shows "read_unsigned (show_number (int a) e @ rest) = Some (a, e, rest)"
proof -
  define ds where "ds = show_nat a"
  define k where "k = int (length ds)"
  define n where "n = k + e"
  have digits: "\<forall>c \<in> set ds. is_digit c"
    using show_nat_digits by (auto simp: ds_def)
  have nonempty: "ds \<noteq> []"
    by (simp add: ds_def show_nat_nonempty)
  have first: "hd ds \<noteq> CHR ''0''"
    using pos by (simp add: ds_def show_nat_hd)
  have val: "nat_of_digits ds = a"
    by (simp add: ds_def nat_of_digits_show_nat)
  have k: "0 < k"
    using nonempty by (simp add: k_def)
  have fixed: "normalise a x = (a, x)" for x
    using pos last by (rule normalise_fixed)
  have none: "\<forall>c \<in> set ([] :: string). is_digit c"
    by simp
  have body: "show_number (int a) e =
      (if k \<le> n \<and> n \<le> 21 then ds @ replicate (nat (n - k)) CHR ''0''
       else if 0 < n \<and> n \<le> 21 then take (nat n) ds @ ''.'' @ drop (nat n) ds
       else if - 6 < n \<and> n \<le> 0 then ''0.'' @ replicate (nat (- n)) CHR ''0'' @ ds
       else if k = 1 then ds @ show_exponent (n - 1)
       else take 1 ds @ ''.'' @ drop 1 ds @ show_exponent (n - 1))"
    using pos by (simp add: show_number_def Let_def ds_def k_def n_def)
  consider (whole) "k \<le> n" "n \<le> 21"
    | (point) "n < k" "0 < n" "n \<le> 21"
    | (small) "- 6 < n" "n \<le> 0"
    | (exp1) "21 < n \<or> n \<le> - 6" "k = 1"
    | (exp) "21 < n \<or> n \<le> - 6" "k \<noteq> 1"
    by linarith
  then show ?thesis
  proof cases
    case whole
    define z where "z = nat (n - k)"
    define ip where "ip = ds @ replicate z CHR ''0''"
    have shown: "show_number (int a) e = ip"
      using whole by (simp add: body z_def ip_def)
    have ip: "ip \<noteq> []" "\<forall>c \<in> set ip. is_digit c" "hd ip \<noteq> CHR ''0'' \<or> length ip = 1"
      using digits nonempty first by (auto simp: ip_def is_digit_zero)
    have "normalise (nat_of_digits (ip @ [])) (0 - int (length ([] :: string))) = (a, e)"
      using pos last whole normalise_shift [of a z 0]
      by (simp add: nat_of_digits_append nat_of_digits_zeros val z_def n_def ip_def)
    then have "normalise (nat_of_digits (ip @ []))
        ((case None of None \<Rightarrow> 0 | Some x \<Rightarrow> x) - int (length ([] :: string))) = (a, e)"
      by simp
    from read_unsigned_text [OF ip none rest this]
    show ?thesis
      by (simp add: shown fraction_text_def exponent_text_def)
  next
    case point
    define i where "i = nat n"
    have i: "0 < i" "i < length ds"
      using point by (simp_all add: i_def k_def)
    have shown: "show_number (int a) e = take i ds @ CHR ''.'' # drop i ds"
      using point by (simp add: body i_def)
    have ip: "take i ds \<noteq> []" "\<forall>c \<in> set (take i ds). is_digit c"
        "hd (take i ds) \<noteq> CHR ''0'' \<or> length (take i ds) = 1"
      using digits nonempty first i by (auto simp: hd_take dest: in_set_takeD)
    have fp: "\<forall>c \<in> set (drop i ds). is_digit c" "drop i ds \<noteq> []"
      using digits i by (auto dest: in_set_dropD)
    have "normalise (nat_of_digits (take i ds @ drop i ds))
        ((case None of None \<Rightarrow> 0 | Some x \<Rightarrow> x) - int (length (drop i ds))) = (a, e)"
      using i point by (simp add: val fixed i_def n_def k_def)
    from read_unsigned_text [OF ip fp(1) rest this]
    show ?thesis
      using fp(2) by (simp add: shown fraction_text_def exponent_text_def)
  next
    case small
    define z where "z = nat (- n)"
    define fp where "fp = replicate z CHR ''0'' @ ds"
    have shown: "show_number (int a) e = ''0'' @ CHR ''.'' # fp"
      using small k by (simp add: body z_def fp_def)
    have ip: "''0'' \<noteq> []" "\<forall>c \<in> set ''0''. is_digit c" "hd ''0'' \<noteq> CHR ''0'' \<or> length ''0'' = 1"
      by (simp_all add: is_digit_zero)
    have fp: "\<forall>c \<in> set fp. is_digit c" "fp \<noteq> []"
      using digits nonempty by (auto simp: fp_def is_digit_zero)
    have "nat_of_digits ''0'' = 0"
      by (simp add: nat_of_digits_def digit_val_def)
    moreover have "nat_of_digits fp = a"
      unfolding fp_def nat_of_digits_append by (simp add: nat_of_digits_zeros val)
    ultimately have "nat_of_digits (''0'' @ fp) = a"
      unfolding nat_of_digits_append [of "''0''" fp] by simp
    then have "normalise (nat_of_digits (''0'' @ fp))
        ((case None of None \<Rightarrow> 0 | Some x \<Rightarrow> x) - int (length fp)) = (a, e)"
      using small by (simp add: fixed z_def n_def k_def fp_def)
    from read_unsigned_text [OF ip fp(1) rest this]
    show ?thesis
      using fp(2) by (simp add: shown fraction_text_def exponent_text_def)
  next
    case exp1
    have shown: "show_number (int a) e = ds @ show_exponent (n - 1)"
      using exp1 k by (auto simp: body)
    have ip: "ds \<noteq> []" "\<forall>c \<in> set ds. is_digit c" "hd ds \<noteq> CHR ''0'' \<or> length ds = 1"
      using digits nonempty first by auto
    have "normalise (nat_of_digits (ds @ []))
        ((case Some (n - 1) of None \<Rightarrow> 0 | Some x \<Rightarrow> x) - int (length ([] :: string))) = (a, e)"
      using exp1 by (simp add: val fixed n_def)
    from read_unsigned_text [OF ip none rest this]
    show ?thesis
      by (simp add: shown fraction_text_def exponent_text_def)
  next
    case exp
    have long: "1 < length ds"
      using exp(2) nonempty by (cases ds) (auto simp: k_def)
    have shown: "show_number (int a) e = take 1 ds @ CHR ''.'' # drop 1 ds @ show_exponent (n - 1)"
      using exp k by (auto simp: body)
    have ip: "take 1 ds \<noteq> []" "\<forall>c \<in> set (take 1 ds). is_digit c"
        "hd (take 1 ds) \<noteq> CHR ''0'' \<or> length (take 1 ds) = 1"
      using digits nonempty first long by (auto simp: hd_take dest: in_set_takeD)
    have fp: "\<forall>c \<in> set (drop 1 ds). is_digit c" "drop 1 ds \<noteq> []"
      using digits long by (auto dest: in_set_dropD)
    have "normalise (nat_of_digits (take 1 ds @ drop 1 ds))
        ((case Some (n - 1) of None \<Rightarrow> 0 | Some x \<Rightarrow> x) - int (length (drop 1 ds))) = (a, e)"
      using long by (simp add: val fixed n_def k_def)
    from read_unsigned_text [OF ip fp(1) rest this]
    show ?thesis
      using fp(2) by (simp add: shown fraction_text_def exponent_text_def)
  qed
qed

lemma read_unsigned_zero:
  assumes "number_end rest"
  shows "read_unsigned (''0'' @ rest) = Some (0, 0, rest)"
proof -
  have ip: "''0'' \<noteq> []" "\<forall>c \<in> set ''0''. is_digit c" "hd ''0'' \<noteq> CHR ''0'' \<or> length ''0'' = 1"
    by (simp_all add: is_digit_zero)
  have none: "\<forall>c \<in> set ([] :: string). is_digit c"
    by simp
  have "normalise (nat_of_digits (''0'' @ []))
      ((case None of None \<Rightarrow> 0 | Some x \<Rightarrow> x) - int (length ([] :: string))) = (0, 0)"
    by (simp add: nat_of_digits_def digit_val_def normalise_zero)
  from read_unsigned_text [OF ip none assms this]
  show ?thesis
    by (simp add: fraction_text_def exponent_text_def)
qed

lemma show_number_negative:
  "m < 0 \<Longrightarrow> show_number m e = CHR ''-'' # show_number (- m) e"
  by (simp add: show_number_def Let_def)

lemma show_number_start:
  "0 \<le> m \<Longrightarrow> \<exists>c cs. show_number m e = c # cs \<and> is_digit c"
proof -
  assume "0 \<le> m"
  obtain c cs where start: "show_nat (nat \<bar>m\<bar>) = c # cs" "is_digit c"
    using show_nat_start by blast
  have zero: "is_digit CHR ''0''"
    by (simp add: is_digit_def)
  show ?thesis
    using \<open>0 \<le> m\<close> start zero
    by (auto simp: show_number_def Let_def take_Cons')
qed

theorem read_show_number:
  assumes "canonical_number m e" and "number_end rest"
  shows "read_number (show_number m e @ rest) = Some (m, e, rest)"
proof -
  consider (zero) "m = 0" | (positive) "0 < m" | (negative) "m < 0"
    by linarith
  then show ?thesis
  proof cases
    case zero
    with assms have "e = 0" by (simp add: canonical_number_def)
    with zero read_unsigned_zero [OF assms(2)] show ?thesis
      by (simp add: read_number_def show_number_def)
  next
    case positive
    define a where "a = nat m"
    have "int (nat m mod 10) = m mod 10"
      using positive by (simp add: zmod_int)
    then have a: "0 < a" "a mod 10 \<noteq> 0" "m = int a"
      using positive assms(1) by (auto simp: a_def canonical_number_def)
    obtain c cs where start: "show_number m e = c # cs" "is_digit c"
      using show_number_start [of m e] positive by auto
    then have "c \<noteq> CHR ''-''"
      by (auto simp: is_digit_def)
    with start read_unsigned_show_number [OF a(1) a(2) assms(2), of e] show ?thesis
      by (simp add: read_number_def a(3))
  next
    case negative
    define a where "a = nat (- m)"
    have "(- m) mod 10 \<noteq> 0"
      using assms(1) negative unfolding canonical_number_def by presburger
    moreover have "int (nat (- m) mod 10) = (- m) mod 10"
      using negative by (simp add: zmod_int)
    ultimately have a: "0 < a" "a mod 10 \<noteq> 0" "- m = int a"
      using negative by (auto simp: a_def)
    from read_unsigned_show_number [OF a(1) a(2) assms(2), of e] negative a(3) show ?thesis
      by (simp add: read_number_def show_number_negative)
  qed
qed

lemma hex_val_hex_digit: "d < 16 \<Longrightarrow> hex_val (hex_digit d) = Some d"
  by (simp add: hex_val_def hex_digit_def Let_def)

lemma hex_val_zero: "hex_val CHR ''0'' = Some 0"
  by (simp add: hex_val_def)

lemma read_string_escaped:
  "read_string (concat (map escape_char s) @ CHR 0x22 # rest) = Some (s, rest)"
proof (induction s)
  case Nil
  then show ?case by simp
next
  case (Cons c s)
  consider (quote) "c = CHR 0x22" | (backslash) "c = CHR 0x5C"
    | (short) "c = CHR 0x08 \<or> c = CHR 0x09 \<or> c = CHR 0x0A \<or> c = CHR 0x0C \<or> c = CHR 0x0D"
    | (control) "c \<noteq> CHR 0x22" "c \<noteq> CHR 0x5C"
        "c \<noteq> CHR 0x08" "c \<noteq> CHR 0x09" "c \<noteq> CHR 0x0A" "c \<noteq> CHR 0x0C" "c \<noteq> CHR 0x0D"
        "(of_char c :: nat) < 32"
    | (plain) "c \<noteq> CHR 0x22" "c \<noteq> CHR 0x5C" "\<not> (of_char c :: nat) < 32"
    by blast
  then show ?case
  proof cases
    case quote
    then have "escape_char c = [CHR 0x5C, CHR 0x22]"
      by (simp add: escape_char_def)
    with Cons quote show ?thesis by (simp add: unescape_def)
  next
    case backslash
    then have "escape_char c = [CHR 0x5C, CHR 0x5C]"
      by (simp add: escape_char_def)
    with Cons backslash show ?thesis by (simp add: unescape_def)
  next
    case short
    then obtain e where "escape_char c = [CHR 0x5C, e]" "e \<noteq> CHR ''u''" "unescape e = Some c"
      by (auto simp: escape_char_def unescape_def)
    with Cons show ?thesis by simp
  next
    case control
    define n :: nat where "n = of_char c"
    have n: "n < 32" using control by (simp add: n_def)
    then have "n div 16 < 16" "n mod 16 < 16" by simp_all
    then have hex: "hex4 CHR ''0'' CHR ''0'' (hex_digit (n div 16)) (hex_digit (n mod 16)) = Some n"
      by (simp add: hex4_def hex_val_zero hex_val_hex_digit)
    have utf: "utf8 n = [c]" using n by (simp add: utf8_def n_def)
    have "escape_char c = [CHR 0x5C, CHR ''u'', CHR ''0'', CHR ''0'',
        hex_digit (n div 16), hex_digit (n mod 16)]"
      using control by (simp add: escape_char_def n_def)
    with Cons hex utf n show ?thesis by simp
  next
    case plain
    then have "c \<noteq> CHR 0x08" "c \<noteq> CHR 0x09" "c \<noteq> CHR 0x0A" "c \<noteq> CHR 0x0C" "c \<noteq> CHR 0x0D"
      by auto
    with plain have "escape_char c = [c]"
      by (simp add: escape_char_def)
    with Cons plain show ?thesis by simp
  qed
qed

lemma read_string_quote: "read_string (tl (quote s) @ rest) = Some (s, rest)"
  by (simp add: quote_def read_string_escaped)

lemma skip_ws_first_ok: "first_ok s \<Longrightarrow> skip_ws s = s"
  by (cases s) simp_all

lemma first_ok_append: "first_ok s \<Longrightarrow> first_ok (s @ t)"
  by (cases s) simp_all

lemma is_digit_first_ok: "is_digit c \<Longrightarrow> first_ok (c # cs)"
  by (auto simp: is_digit_def is_ws_def)

lemma first_ok_show_number: "first_ok (show_number m e)"
proof (cases "m < 0")
  case True
  then show ?thesis
    by (simp add: show_number_negative is_ws_def)
next
  case False
  then obtain c cs where "show_number m e = c # cs" "is_digit c"
    using show_number_start [of m e] by auto
  then show ?thesis
    using is_digit_first_ok [of c cs] by simp
qed

lemma first_ok_stringify: "first_ok (stringify j)"
  by (cases j) (simp_all add: first_ok_show_number quote_def is_ws_def)

lemma length_stringify_pos: "0 < length (stringify j)"
  using first_ok_stringify [of j] by (cases "stringify j") simp_all

lemma number_end_simps:
  "number_end (CHR '','' # s)" "number_end (CHR '']'' # s)" "number_end (CHR ''}'' # s)"
  "number_end []"
  by (simp_all add: number_end_def is_digit_def)

lemma keys_set_member:
  "fst ` set (set_member k v kvs) = insert k (fst ` set kvs)"
  by (induction kvs) auto

lemma set_member_last:
  "\<forall>kv \<in> set kvs. fst kv \<noteq> k \<and> \<not> key_before k (fst kv) \<Longrightarrow>
   set_member k v kvs = kvs @ [(k, v)]"
  by (induction kvs) auto

lemma key_le_not_before: "key_le k' k \<Longrightarrow> \<not> key_before k k'"
  by (auto simp: key_le_def key_before_def)

lemma object_of_snoc:
  "object_of (kvs @ [kv]) = set_member (fst kv) (snd kv) (object_of kvs)"
  by (simp add: object_of_def)

lemma key_order_snoc:
  "key_order (ks @ [k]) = (key_order ks \<and> k \<notin> set ks \<and> (\<forall>k' \<in> set ks. key_le k' k))"
  by (auto simp: key_order_def sorted_wrt_append)

lemma key_order_Nil: "key_order []"
  by (simp add: key_order_def)

lemma key_order_Cons:
  "key_order (k # ks) = (key_order ks \<and> k \<notin> set ks \<and> (\<forall>k' \<in> set ks. key_le k k'))"
  by (auto simp: key_order_def)

lemma object_of_canonical: "key_order (map fst kvs) \<Longrightarrow> object_of kvs = kvs"
proof (induction kvs rule: rev_induct)
  case Nil
  show ?case by (simp add: object_of_def)
next
  case (snoc kv kvs)
  from snoc.prems have order: "key_order (map fst kvs)" and fresh: "fst kv \<notin> fst ` set kvs"
    and le: "\<forall>k' \<in> fst ` set kvs. key_le k' (fst kv)"
    by (simp_all add: key_order_snoc)
  have "fst kv' \<noteq> fst kv \<and> \<not> key_before (fst kv) (fst kv')" if "kv' \<in> set kvs" for kv'
  proof -
    from that have "fst kv' \<in> fst ` set kvs" by (rule imageI)
    with fresh le show ?thesis
      by (metis key_le_not_before)
  qed
  then have "set_member (fst kv) (snd kv) kvs = kvs @ [kv]"
    using set_member_last [of kvs "fst kv" "snd kv"] by simp
  with snoc.IH [OF order] show ?case
    by (simp add: object_of_snoc)
qed

lemma key_order_set_member:
  "key_order (map fst kvs) \<Longrightarrow> key_order (map fst (set_member k v kvs))"
proof (induction kvs)
  case Nil
  show ?case by (simp add: key_order_def)
next
  case (Cons kv kvs)
  from Cons.prems have tail: "key_order (map fst kvs)" and fresh: "fst kv \<notin> fst ` set kvs"
    and le: "\<forall>k' \<in> fst ` set kvs. key_le (fst kv) k'"
    by (simp_all add: key_order_Cons)
  show ?case
  proof (cases "k = fst kv")
    case True
    with Cons.prems show ?thesis by simp
  next
    case False
    show ?thesis
    proof (cases "key_before k (fst kv)")
      case True
      have "k \<notin> fst ` set kvs"
      proof
        assume "k \<in> fst ` set kvs"
        with le have "key_le (fst kv) k" by blast
        with True show False by (simp add: key_le_not_before)
      qed
      moreover have "key_le k (fst kv)"
        using True by (auto simp: key_le_def key_before_def)
      moreover have "key_le k k'" if "k' \<in> fst ` set kvs" for k'
        using True le that by (fastforce simp: key_le_def key_before_def)
      ultimately show ?thesis
        using False True Cons.prems by (auto simp: key_order_Cons)
    next
      case before: False
      have "key_le (fst kv) k"
        using before by (auto simp: key_le_def key_before_def)
      with le have "\<forall>k' \<in> insert k (fst ` set kvs). key_le (fst kv) k'"
        by simp
      moreover from fresh False have "fst kv \<notin> insert k (fst ` set kvs)"
        by simp
      moreover have "set (map fst (set_member k v kvs)) = insert k (fst ` set kvs)"
        by (simp add: keys_set_member del: set_member.simps)
      ultimately have "key_order (fst kv # map fst (set_member k v kvs))"
        using Cons.IH [OF tail] unfolding key_order_Cons by simp
      with False before show ?thesis
        by simp
    qed
  qed
qed

lemma key_order_foldl:
  "key_order (map fst obj) \<Longrightarrow>
   key_order (map fst (foldl (\<lambda>obj kv. set_member (fst kv) (snd kv) obj) obj kvs))"
  by (induction kvs arbitrary: obj) (simp_all add: key_order_set_member)

lemma key_order_object_of: "key_order (map fst (object_of kvs))"
  unfolding object_of_def by (rule key_order_foldl) (simp add: key_order_def)

lemma values_set_member:
  "list_all (\<lambda>kv. P (snd kv)) kvs \<Longrightarrow> P v \<Longrightarrow> list_all (\<lambda>kv. P (snd kv)) (set_member k v kvs)"
  by (induction kvs) auto

lemma values_foldl:
  "list_all (\<lambda>kv. P (snd kv)) obj \<Longrightarrow> list_all (\<lambda>kv. P (snd kv)) kvs \<Longrightarrow>
   list_all (\<lambda>kv. P (snd kv)) (foldl (\<lambda>obj kv. set_member (fst kv) (snd kv) obj) obj kvs)"
  by (induction kvs arbitrary: obj) (simp_all add: values_set_member)

lemma values_object_of:
  "list_all (\<lambda>kv. P (snd kv)) kvs \<Longrightarrow> list_all (\<lambda>kv. P (snd kv)) (object_of kvs)"
  unfolding object_of_def by (rule values_foldl) simp_all


lemma parse_elements_roundtrip:
  assumes "xs \<noteq> []" and "\<And>x. x \<in> set xs \<Longrightarrow> roundtrips x"
    and "length (join '','' (map stringify xs)) < fuel"
  shows "parse_elements fuel (join '','' (map stringify xs) @ CHR '']'' # rest) = Some (xs, rest)"
  using assms
proof (induction xs arbitrary: fuel rule: list_nonempty_induct)
  case (single x)
  from single.prems obtain n where fuel: "fuel = Suc n" and n: "length (stringify x) \<le> n"
    by (cases fuel) auto
  from single.prems have "roundtrips x" by simp
  with n have "parse_value n (stringify x @ CHR '']'' # rest) = Some (x, CHR '']'' # rest)"
    by (simp add: roundtrips_def number_end_simps)
  then show ?case
    by (simp add: fuel is_ws_def)
next
  case (cons x xs)
  then obtain y ys where xs: "xs = y # ys" by (cases xs) auto
  from cons.prems obtain n where fuel: "fuel = Suc n"
    and n: "length (stringify x) + 1 + length (join '','' (map stringify xs)) \<le> n"
    by (cases fuel) (auto simp: xs)
  from cons.prems have "roundtrips x" by simp
  with n have head: "parse_value n (stringify x @ CHR '','' # join '','' (map stringify xs) @ CHR '']'' # rest) =
      Some (x, CHR '','' # join '','' (map stringify xs) @ CHR '']'' # rest)"
    by (simp add: roundtrips_def number_end_simps)
  have "length (join '','' (map stringify xs)) < n"
    using n by simp
  with cons.IH cons.prems have tail: "parse_elements n (join '','' (map stringify xs) @ CHR '']'' # rest) =
      Some (xs, rest)"
    by simp
  show ?case
    using head tail by (simp add: fuel xs is_ws_def)
qed

lemma quote_Cons: "quote k = CHR 0x22 # tl (quote k)"
  by (simp add: quote_def)

lemma member_text_Cons:
  "member_text kv = CHR 0x22 # tl (quote (fst kv)) @ CHR '':'' # stringify (snd kv)"
  by (simp add: member_text_def quote_def)

lemma length_member_text:
  "length (member_text kv) = Suc (length (tl (quote (fst kv)))) + 1 + length (stringify (snd kv))"
  by (simp add: member_text_Cons)

lemma parse_members_roundtrip:
  assumes "kvs \<noteq> []" and "\<And>kv. kv \<in> set kvs \<Longrightarrow> roundtrips (snd kv)"
    and "length (join '','' (map member_text kvs)) < fuel"
  shows "parse_members fuel (join '','' (map member_text kvs) @ CHR ''}'' # rest) = Some (kvs, rest)"
  using assms
proof (induction kvs arbitrary: fuel rule: list_nonempty_induct)
  case (single kv)
  obtain k v where kv: "kv = (k, v)" by (cases kv)
  from single.prems obtain n where fuel: "fuel = Suc n" and n: "length (stringify v) \<le> n"
    by (cases fuel) (auto simp: kv length_member_text)
  from single.prems have "roundtrips v" by (simp add: kv)
  with n have val: "parse_value n (stringify v @ CHR ''}'' # rest) = Some (v, CHR ''}'' # rest)"
    by (simp add: roundtrips_def number_end_simps)
  have key: "read_string (tl (quote k) @ CHR '':'' # stringify v @ CHR ''}'' # rest) =
      Some (k, CHR '':'' # stringify v @ CHR ''}'' # rest)"
    by (rule read_string_quote)
  show ?case
    using key val by (simp add: fuel kv member_text_Cons is_ws_def)
next
  case (cons kv kvs)
  obtain k v where kv: "kv = (k, v)" by (cases kv)
  from cons obtain kv' kvs' where kvs: "kvs = kv' # kvs'" by (cases kvs) auto
  let ?tail = "join '','' (map member_text kvs) @ CHR ''}'' # rest"
  from cons.prems obtain n where fuel: "fuel = Suc n"
    and n: "length (member_text kv) + 1 + length (join '','' (map member_text kvs)) \<le> n"
    by (cases fuel) (auto simp: kvs)
  from cons.prems(1) [of kv] have "roundtrips v" by (simp add: kv)
  moreover from n have "length (stringify v) \<le> n"
    by (simp add: kv length_member_text)
  ultimately have val: "parse_value n (stringify v @ CHR '','' # ?tail) = Some (v, CHR '','' # ?tail)"
    by (simp add: roundtrips_def number_end_simps)
  have key: "read_string (tl (quote k) @ CHR '':'' # stringify v @ CHR '','' # ?tail) =
      Some (k, CHR '':'' # stringify v @ CHR '','' # ?tail)"
    by (rule read_string_quote)
  have "length (join '','' (map member_text kvs)) < n"
    using n by simp
  with cons.IH cons.prems have tail: "parse_members n ?tail = Some (kvs, rest)"
    by simp
  have opened: "join '','' (map member_text (kv # kvs)) @ CHR ''}'' # rest =
      CHR 0x22 # tl (quote k) @ CHR '':'' # stringify v @ CHR '','' # ?tail"
    by (simp add: kvs kv member_text_Cons [of "(k, v)"])
  show ?case
    unfolding opened fuel using key val tail by (simp add: is_ws_def kv)
qed

lemma stringify_JObj: "stringify (JObj kvs) = ''{'' @ join '','' (map member_text kvs) @ ''}''"
  unfolding member_text_def [abs_def] by simp

lemma first_ok_join:
  "xs \<noteq> [] \<Longrightarrow> first_ok (hd xs) \<Longrightarrow> first_ok (join sep xs @ t)"
  by (induction sep xs rule: join.induct) (simp_all add: first_ok_append)

lemma first_ok_member_text: "first_ok (member_text kv)"
  by (simp add: member_text_Cons is_ws_def)

theorem parse_value_stringify: "canonical j \<Longrightarrow> roundtrips j"
proof (induction j)
  case JNull
  show ?case
    unfolding roundtrips_def
  proof (intro allI impI)
    fix fuel rest
    assume "length (stringify JNull) \<le> fuel"
    then obtain n where "fuel = Suc n" by (cases fuel) auto
    then show "parse_value fuel (stringify JNull @ rest) = Some (JNull, rest)"
      by (simp add: is_ws_def is_digit_def)
  qed
next
  case (JBool b)
  show ?case
    unfolding roundtrips_def
  proof (intro allI impI)
    fix fuel rest
    assume "length (stringify (JBool b)) \<le> fuel"
    then obtain n where "fuel = Suc n"
      using length_stringify_pos [of "JBool b"] by (cases fuel) auto
    then show "parse_value fuel (stringify (JBool b) @ rest) = Some (JBool b, rest)"
      by (cases b) (simp_all add: is_ws_def is_digit_def)
  qed
next
  case (JNum m e)
  show ?case
    unfolding roundtrips_def
  proof (intro allI impI)
    fix fuel rest
    assume "length (stringify (JNum m e)) \<le> fuel" and rest: "number_end rest"
    then obtain n where fuel: "fuel = Suc n"
      using length_stringify_pos [of "JNum m e"] by (cases fuel) auto
    obtain c cs where start: "show_number m e = c # cs" "is_digit c \<or> c = CHR ''-''"
    proof (cases "m < 0")
      case True
      then show ?thesis
        using that by (simp add: show_number_negative)
    next
      case False
      then show ?thesis
        using that show_number_start [of m e] by auto
    qed
    have "first_ok (c # cs @ rest)"
      using first_ok_show_number [of m e] by (simp add: start)
    then have ws: "skip_ws (c # cs @ rest) = c # cs @ rest"
      by (rule skip_ws_first_ok)
    have "read_number (c # cs @ rest) = Some (m, e, rest)"
      using read_show_number [of m e rest] JNum rest by (simp add: start)
    with start(2) show "parse_value fuel (stringify (JNum m e) @ rest) = Some (JNum m e, rest)"
      by (simp add: fuel start(1) ws del: skip_ws.simps)
  qed
next
  case (JStr s)
  show ?case
    unfolding roundtrips_def
  proof (intro allI impI)
    fix fuel rest
    assume "length (stringify (JStr s)) \<le> fuel"
    then obtain n where fuel: "fuel = Suc n"
      using length_stringify_pos [of "JStr s"] by (cases fuel) auto
    have "read_string (tl (quote s) @ rest) = Some (s, rest)"
      by (rule read_string_quote)
    then show "parse_value fuel (stringify (JStr s) @ rest) = Some (JStr s, rest)"
      by (simp add: fuel quote_def is_ws_def is_digit_def)
  qed
next
  case (JArr xs)
  have elements: "roundtrips x" if "x \<in> set xs" for x
    using JArr that by (simp add: list_all_iff)
  show ?case
    unfolding roundtrips_def
  proof (intro allI impI)
    fix fuel rest
    assume len: "length (stringify (JArr xs)) \<le> fuel"
    then obtain n where fuel: "fuel = Suc n" by (cases fuel) auto
    show "parse_value fuel (stringify (JArr xs) @ rest) = Some (JArr xs, rest)"
    proof (cases xs)
      case Nil
      then show ?thesis
        by (simp add: fuel is_ws_def is_digit_def)
    next
      case (Cons y ys)
      let ?body = "join '','' (map stringify xs) @ CHR '']'' # rest"
      have "first_ok ?body"
        using Cons first_ok_join [where xs = "map stringify xs" and t = "CHR '']'' # rest" and sep = "'',''"]
        by (simp add: first_ok_stringify)
      then obtain d ds where body: "?body = d # ds" "d \<noteq> CHR '']''" "skip_ws ?body = ?body"
        by (cases ?body) (simp_all add: skip_ws_first_ok del: skip_ws.simps)
      have "length (join '','' (map stringify xs)) < n"
        using len by (simp add: fuel)
      with elements Cons have "parse_elements n ?body = Some (xs, rest)"
        by (intro parse_elements_roundtrip) simp_all
      with body show ?thesis
        by (simp add: fuel is_ws_def is_digit_def)
    qed
  qed
next
  case (JObj kvs)
  have members: "roundtrips (snd kv)" if "kv \<in> set kvs" for kv
    using JObj.IH [of kv "snd kv"] JObj.prems that by (cases kv) (auto simp: list_all_iff)
  have object: "object_of kvs = kvs"
    using JObj.prems by (simp add: object_of_canonical)
  show ?case
    unfolding roundtrips_def
  proof (intro allI impI)
    fix fuel rest
    assume len: "length (stringify (JObj kvs)) \<le> fuel"
    then obtain n where fuel: "fuel = Suc n" by (cases fuel) auto
    show "parse_value fuel (stringify (JObj kvs) @ rest) = Some (JObj kvs, rest)"
    proof (cases kvs)
      case Nil
      then show ?thesis
        by (simp add: fuel is_ws_def is_digit_def)
    next
      case (Cons y ys)
      let ?body = "join '','' (map member_text kvs) @ CHR ''}'' # rest"
      have "first_ok ?body"
        using Cons first_ok_join [where xs = "map member_text kvs" and t = "CHR ''}'' # rest" and sep = "'',''"]
        by (simp add: first_ok_member_text)
      then obtain d ds where body: "?body = d # ds" "d \<noteq> CHR ''}''" "skip_ws ?body = ?body"
        by (cases ?body) (simp_all add: skip_ws_first_ok del: skip_ws.simps)
      have "length (join '','' (map member_text kvs)) < n"
        using len by (simp add: fuel stringify_JObj del: stringify.simps)
      with members have "parse_members n ?body = Some (kvs, rest)"
        using Cons by (intro parse_members_roundtrip) simp_all
      with body object show ?thesis
        by (simp add: fuel stringify_JObj is_ws_def is_digit_def del: stringify.simps)
    qed
  qed
qed

lemma roundtripsD:
  "roundtrips j \<Longrightarrow> length (stringify j) \<le> fuel \<Longrightarrow> number_end rest \<Longrightarrow>
   parse_value fuel (stringify j @ rest) = Some (j, rest)"
  by (simp add: roundtrips_def)

theorem parse_json_stringify:
  assumes "canonical j"
  shows "parse_json (stringify j) = Some j"
proof -
  have "parse_value (Suc (length (stringify j))) (stringify j @ []) = Some (j, [])"
    by (rule roundtripsD [OF parse_value_stringify [OF assms]]) (simp_all add: number_end_def)
  then have "parse_value (Suc (length (stringify j))) (stringify j) = Some (j, [])"
    by (simp del: parse_value.simps)
  then show ?thesis
    unfolding parse_json_def by (simp del: parse_value.simps)
qed


lemma canonical_object_of:
  "list_all (\<lambda>kv. canonical (snd kv)) kvs \<Longrightarrow>
   list_all (\<lambda>kv. canonical (snd kv)) (object_of kvs)"
  by (rule values_object_of)

lemma read_unsigned_canonical:
  "read_unsigned s = Some (m, e, rest) \<Longrightarrow>
   canonical_number (int m) e \<and> canonical_number (- int m) e"
  by (auto simp: read_unsigned_def Let_def normalise_canonical
      split: option.splits prod.splits if_splits)

lemma read_number_canonical:
  "read_number s = Some (m, e, rest) \<Longrightarrow> canonical_number m e"
  by (auto simp: read_number_def dest: read_unsigned_canonical
      split: list.splits option.splits if_splits)

lemma parse_canonical:
  "(\<forall>s j rest. parse_value n s = Some (j, rest) \<longrightarrow> canonical j)
   \<and> (\<forall>s xs rest. parse_elements n s = Some (xs, rest) \<longrightarrow> list_all canonical xs)
   \<and> (\<forall>s kvs rest. parse_members n s = Some (kvs, rest) \<longrightarrow>
        list_all (\<lambda>kv. canonical (snd kv)) kvs)"
proof (induction n)
  case 0
  show ?case by simp
next
  case (Suc n)
  from Suc have val: "parse_value n s = Some (j, rest) \<Longrightarrow> canonical j" for s j rest
    by blast
  from Suc have elems: "parse_elements n s = Some (xs, rest) \<Longrightarrow> list_all canonical xs" for s xs rest
    by blast
  from Suc have mems: "parse_members n s = Some (kvs, rest) \<Longrightarrow>
      list_all (\<lambda>kv. canonical (snd kv)) kvs" for s kvs rest
    by blast
  have "canonical j" if "parse_value (Suc n) s = Some (j, rest)" for s j rest
    using that
    by (auto simp: key_order_object_of key_order_Nil canonical_object_of
        dest: read_number_canonical elems mems
        split: list.splits option.splits if_splits)
  moreover have "list_all canonical xs" if "parse_elements (Suc n) s = Some (xs, rest)" for s xs rest
    using that
    by (auto split: list.splits option.splits if_splits) (blast dest: val elems)+
  moreover have "list_all (\<lambda>kv. canonical (snd kv)) kvs"
    if "parse_members (Suc n) s = Some (kvs, rest)" for s kvs rest
    using that
    by (auto split: list.splits option.splits if_splits) (blast dest: val mems)+
  ultimately show ?case by blast
qed

lemma parse_json_canonical: "parse_json s = Some j \<Longrightarrow> canonical j"
  using parse_canonical [of "Suc (length s)", THEN conjunct1, rule_format, of s j]
  by (auto simp: parse_json_def split: option.splits if_splits simp del: parse_value.simps)

lemma jsonEncoder_roundtrip:
  "canonical j \<Longrightarrow> fromBase64 jsonEncoder (toBase64 jsonEncoder j) = Inr j"
  by (simp add: jsonEncoder_def base64_roundtrip parse_json_stringify)

lemma jsonEncoder_canonical: "fromBase64 jsonEncoder s = Inr j \<Longrightarrow> canonical j"
  by (auto simp: jsonEncoder_def split: option.splits dest: parse_json_canonical)

lemma key_order_names:
  "distinct ks \<Longrightarrow> \<forall>k \<in> set ks. \<not> is_index k \<Longrightarrow> key_order ks"
  by (induction ks) (auto simp: key_order_Nil key_order_Cons key_le_def)

lemma not_index_names:
  "\<not> is_index ''proofType''" "\<not> is_index ''proofPurpose''" "\<not> is_index ''created''"
  "\<not> is_index ''domain''" "\<not> is_index ''challenge''" "\<not> is_index ''credentialStatus''"
  "\<not> is_index ''credential''" "\<not> is_index ''options''" "\<not> is_index ''type''"
  "\<not> is_index ''verificationMethod''" "\<not> is_index ''proofValue''" "\<not> is_index ''proof''"
  by (simp_all add: is_index_def is_digit_def)

lemma canonical_options:
  assumes "case credentialStatus opts of None \<Rightarrow> True | Some s \<Rightarrow> canonical s"
  shows "canonical (options_toJSON opts)"
proof -
  let ?kvs = "[(''proofType'', JStr (proofType opts))] @
      optional_member ''proofPurpose'' (proofPurpose opts) @
      optional_member ''created'' (created opts) @
      optional_member ''domain'' (domain opts) @
      optional_member ''challenge'' (challenge opts) @
      (case credentialStatus opts of None \<Rightarrow> [] | Some j \<Rightarrow> [(''credentialStatus'', j)])"
  have "distinct (map fst ?kvs)"
    by (simp add: optional_member_def split: option.splits)
  moreover have "\<forall>k \<in> set (map fst ?kvs). \<not> is_index k"
    by (auto simp: optional_member_def not_index_names split: option.splits)
  ultimately have "key_order (map fst ?kvs)"
    by (rule key_order_names)
  moreover have "list_all (\<lambda>kv. canonical (snd kv)) ?kvs"
    using assms by (simp add: optional_member_def split: option.splits)
  ultimately show ?thesis
    unfolding options_toJSON_def canonical.simps by blast
qed

lemma canonical_detail: "wellformed_detail d \<Longrightarrow> canonical (detail_toJSON d)"
  by (simp add: wellformed_detail_def detail_toJSON_def canonical_options key_order_names
      not_index_names)

lemma options_ofJSON_toJSON: "options_ofJSON (options_toJSON opts) = Some opts"
  by (cases opts)
    (simp add: options_ofJSON_def options_toJSON_def optional_member_def read_optional_member_def
      split: option.splits)

lemma detail_ofJSON_toJSON: "detail_ofJSON (detail_toJSON d) = Some d"
  by (cases d) (simp add: detail_ofJSON_def detail_toJSON_def options_ofJSON_toJSON)

lemma detailEncoder_roundtrip:
  "wellformed_detail d \<Longrightarrow> fromBase64 detailEncoder (toBase64 detailEncoder d) = Inr d"
  by (simp add: detailEncoder_def jsonEncoder_roundtrip canonical_detail detail_ofJSON_toJSON)

lemma canonical_proof:
  assumes "canonical (proof_signature p)"
  shows "canonical (proof_toJSON p)"
proof -
  let ?kvs = "[(''type'', JStr (proof_type p))] @
      optional_member ''proofPurpose'' (proof_proofPurpose p) @
      [(''verificationMethod'', JStr (proof_verificationMethod p))] @
      optional_member ''created'' (proof_created p) @
      optional_member ''domain'' (proof_domain p) @
      optional_member ''challenge'' (proof_challenge p) @
      [(''proofValue'', proof_signature p)]"
  have "distinct (map fst ?kvs)"
    by (simp add: optional_member_def split: option.splits)
  moreover have "\<forall>k \<in> set (map fst ?kvs). \<not> is_index k"
    by (auto simp: optional_member_def not_index_names split: option.splits)
  ultimately have "key_order (map fst ?kvs)"
    by (rule key_order_names)
  moreover have "list_all (\<lambda>kv. canonical (snd kv)) ?kvs"
    using assms by (simp add: optional_member_def split: option.splits)
  ultimately show ?thesis
    unfolding proof_toJSON_def canonical.simps by blast
qed

lemma proof_ofJSON_toJSON: "proof_ofJSON (proof_toJSON p) = Some p"
  by (cases p)
    (simp add: proof_ofJSON_def proof_toJSON_def optional_member_def read_optional_member_def
      split: option.splits)

lemma those_proofs: "those (map (proof_ofJSON \<circ> proof_toJSON) ps) = Some ps"
  by (induction ps) (simp_all add: proof_ofJSON_toJSON)

lemma proofs_ofJSON_toJSON: "proofs_ofJSON (proofs_toJSON ps) = Some ps"
proof (cases ps)
  case (Single p)
  have "proof_toJSON p = JObj (case proof_toJSON p of JObj kvs \<Rightarrow> kvs | _ \<Rightarrow> [])"
    by (simp add: proof_toJSON_def)
  then obtain kvs where "proof_toJSON p = JObj kvs" ..
  with Single proof_ofJSON_toJSON [of p] show ?thesis
    by (simp add: proofs_ofJSON_def proofs_toJSON_def)
next
  case (Array qs)
  then show ?thesis
    by (simp add: proofs_ofJSON_def proofs_toJSON_def those_proofs)
qed

lemma canonical_proofs:
  assumes "case ps of Single p \<Rightarrow> canonical (proof_signature p)
      | Array qs \<Rightarrow> list_all (\<lambda>p. canonical (proof_signature p)) qs"
  shows "canonical (proofs_toJSON ps)"
  using assms
  by (cases ps) (simp_all add: proofs_toJSON_def canonical_proof list_all_iff)

lemma map_of_no_key: "map_of kvs k = None \<Longrightarrow> k \<notin> fst ` set kvs"
  by (simp add: map_of_eq_None_iff)

lemma filter_no_key: "k \<notin> fst ` set kvs \<Longrightarrow> filter (\<lambda>kv. fst kv \<noteq> k) kvs = kvs"
  by (induction kvs) auto

lemma canonical_credential:
  assumes "wellformed_credential v"
  shows "canonical (credential_toJSON v)"
proof -
  from assms obtain kvs where kvs: "claims v = JObj kvs"
    by (cases "claims v") (simp_all add: wellformed_credential_def)
  with assms have fresh: "''proof'' \<notin> fst ` set kvs"
    and order: "key_order (map fst kvs)"
    and members: "list_all (\<lambda>kv. canonical (snd kv)) kvs"
    and proofs: "canonical (proofs_toJSON (vc_proof v))"
    by (simp_all add: wellformed_credential_def map_of_no_key canonical_proofs)
  have "key_order (map fst kvs @ [''proof''])"
    unfolding key_order_snoc using order fresh by (simp add: key_le_def not_index_names)
  with members proofs show ?thesis
    by (simp add: credential_toJSON_def kvs)
qed

lemma credential_ofJSON_toJSON:
  assumes "wellformed_credential v"
  shows "credential_ofJSON (credential_toJSON v) = Some v"
proof -
  from assms obtain kvs where kvs: "claims v = JObj kvs"
    by (cases "claims v") (simp_all add: wellformed_credential_def)
  with assms have none: "map_of kvs ''proof'' = None"
    and issuer: "issuer_ofJSON kvs = Some (issuer v)"
    by (simp_all add: wellformed_credential_def)
  let ?all = "kvs @ [(''proof'', proofs_toJSON (vc_proof v))]"
  have found: "map_of ?all ''proof'' = Some (proofs_toJSON (vc_proof v))"
    using none by (simp add: map_add_def)
  have "map_of ?all ''issuer'' = map_of kvs ''issuer''"
    by (simp add: map_add_def split: option.splits)
  then have same: "issuer_ofJSON ?all = Some (issuer v)"
    using issuer by (simp add: issuer_ofJSON_def)
  have rest: "filter (\<lambda>kv. fst kv \<noteq> ''proof'') ?all = kvs"
    using none by (simp add: filter_no_key map_of_no_key)
  show ?thesis
    using found same rest kvs
    by (cases v) (simp add: credential_ofJSON_def credential_toJSON_def proofs_ofJSON_toJSON)
qed

lemma credentialEncoder_roundtrip:
  "wellformed_credential v \<Longrightarrow> fromBase64 credentialEncoder (toBase64 credentialEncoder v) = Inr v"
  by (simp add: credentialEncoder_def jsonEncoder_roundtrip canonical_credential
      credential_ofJSON_toJSON)

lemma relay_preserves:
  assumes accepted: "acceptProposal jsonEncoder h fresh1 aid1 proposalAttachment = Inr (f, offer)"
  shows "\<exists>detail f' request.
      getDataAsJson jsonEncoder proposalAttachment = Inr detail
    \<and> offer = getFormatData jsonEncoder detail (attachId f)
    \<and> acceptOffer jsonEncoder h fresh2 aid2 offer = Inr (f', request)
    \<and> getDataAsJson jsonEncoder request = Inr detail
    \<and> request = offer\<lparr>attachment_id := (case aid2 of Some a \<Rightarrow> a | None \<Rightarrow> fresh2)\<rparr>
    \<and> f' = \<lparr>attachId = attachment_id request, format_name = JSONLD_VC_DETAIL\<rparr>"
proof -
  from accepted obtain detail where
    decoded: "getDataAsJson jsonEncoder proposalAttachment = Inr detail"
    and valid: "fromJSON_JsonLdCredentialDetail h detail = Inr ()"
    and offer: "offer = getFormatData jsonEncoder detail (attachId f)"
    by (auto simp: acceptProposal_def Let_def split: sum.splits)
  from decoded have "canonical detail"
    by (simp add: getDataAsJson_def jsonEncoder_canonical)
  then have again: "getDataAsJson jsonEncoder (getFormatData jsonEncoder detail a) = Inr detail" for a
    by (simp add: getDataAsJson_def getFormatData_def jsonEncoder_roundtrip)
  have law: "fromBase64 jsonEncoder (toBase64 jsonEncoder detail) = Inr detail"
    using \<open>canonical detail\<close> by (rule jsonEncoder_roundtrip)
  show ?thesis
    using decoded valid again
    by (simp add: acceptOffer_def offer Let_def getFormatData_def newCredentialFormatSpec_def
        getDataAsJson_def law)
qed

lemma canonical_example_json: "canonical example_json"
  by (simp add: example_json_def key_order_def key_le_def is_index_def is_digit_def
      canonical_number_def nat_of_digits_def digit_val_def)

lemma canonical_example_proposal: "canonical example_proposal"
  by (simp add: example_proposal_def key_order_def key_le_def is_index_def is_digit_def
      canonical_number_def)

lemma example_proposal_encoded: "toBase64 jsonEncoder example_proposal = example_proposal_body"
  by code_simp

lemma example_proposal_decoded:
  "getDataAsJson jsonEncoder (attachment_with example_proposal_body) = Inr example_proposal"
  unfolding example_proposal_encoded [symmetric]
  by (simp add: getDataAsJson_def attachment_with_def jsonEncoder_roundtrip
      canonical_example_proposal)

lemma example_handwritten_decoded:
  "getDataAsJson jsonEncoder (attachment_with example_handwritten_body) = Inr example_relayed"
  by code_simp

lemma example_relayed_encoded: "toBase64 jsonEncoder example_relayed = example_relayed_body"
  by code_simp

subsection \<open>Auxiliary facts\<close>

lemmas example_defs =
  example_credential_def example_options_def example_request_def example_proof_def
  example_vc_def example_fromJSON_W3cCredential_def example_helpers_def example_toJSON_def
  credential_toJSON_def proofs_toJSON_def proof_toJSON_def optional_member_def
  example_doc_def example_ctx_def example_supplied_def

lemma canonical_example_credential: "canonical example_credential"
  by (simp add: example_credential_def key_order_def key_le_def is_index_def is_digit_def)

lemma decode_request_attachment:
  assumes "credential d = example_credential" and "credentialStatus (options d) = None"
  shows "getDataAsJson detailEncoder (request_attachment d) = Inr d"
proof -
  from assms have "wellformed_detail d"
    by (simp add: wellformed_detail_def canonical_example_credential)
  then show ?thesis
    by (simp add: getDataAsJson_def request_attachment_def getFormatData_def
        detailEncoder_roundtrip)
qed

lemma wellformed_example_vc: "wellformed_credential example_vc"
  by (simp add: wellformed_credential_def example_vc_def example_proof_def example_credential_def
      issuer_ofJSON_def key_order_def key_le_def is_index_def is_digit_def)

lemma decode_credential_attachment:
  "getDataAsJson jsonEncoder (credential_attachment (example_toJSON example_vc)) =
     Inr (example_toJSON example_vc)"
  using canonical_credential [OF wellformed_example_vc]
  by (simp add: getDataAsJson_def credential_attachment_def getFormatData_def
      jsonEncoder_roundtrip example_toJSON_def)

lemma decode_malformed:
  "getDataAsJson jsonEncoder (attachment_with ''not base64'') = Inl (OtherError ''Malformed attachment'')"
  by (simp add: getDataAsJson_def attachment_with_def jsonEncoder_def MalformedAttachmentError_def
      base64_index_def base64_alphabet_def)

lemma foundFields_eq:
  "filter (\<lambda>field. optionDefined opts field) unsupportedFields = setUnsupportedFields opts"
  by (simp add: unsupportedFields_def optionDefined_def setUnsupportedFields_def)

lemma find_first_match:
  "P m \<Longrightarrow> \<forall>x \<in> set before. \<not> P x \<Longrightarrow> find P (before @ m # after) = Some m"
  by (induction before) auto

lemma find_no_match: "\<forall>x \<in> set xs. \<not> P x \<Longrightarrow> find P xs = None"
  by (induction xs) auto

subsection \<open>The format identifiers\<close>

text \<open>
  C9. \<open>supportsFormat\<close> is a function of its argument alone, and it answers true for
  exactly the two format identifiers \<open>aries/ld-proof-vc-detail@v1.0\<close> and
  \<open>aries/ld-proof-vc@1.0\<close>.
\<close>

theorem supportsFormat_exactly_two:
  "supportsFormat s =
     (s = ''aries/ld-proof-vc-detail@v1.0'' \<or> s = ''aries/ld-proof-vc@1.0'')"
  by (auto simp: supportsFormat_def JSONLD_VC_DETAIL_def JSONLD_VC_def)

subsection \<open>The credential matcher\<close>

text \<open>
  C7. A credential whose proof is an array is rejected with the error for proof arrays,
  whatever the helpers, the other properties of the credential and the request are: no
  other rule of the matcher is reached.
\<close>

theorem matcher_rejects_proof_array:
  "vc_proof vc = Array ps \<Longrightarrow>
   verifyReceivedCredentialMatchesRequest h vc request = Inl ProofArrayUnsupportedError"
  by (simp add: verifyReceivedCredentialMatchesRequest_def ProofArrayUnsupportedError_def)

text \<open>
  The witness: two proofs in an array, and a request whose domain no proof matches. The
  error is the one for arrays, not the one of the domain rule.
\<close>

theorem matcher_rejects_proof_array_witness:
  "vc_proof (example_vc\<lparr>vc_proof := Array [example_proof, example_proof]\<rparr>) =
     Array [example_proof, example_proof]
   \<and> verifyReceivedCredentialMatchesRequest example_helpers
       (example_vc\<lparr>vc_proof := Array [example_proof, example_proof]\<rparr>)
       (example_request\<lparr>options := example_options\<lparr>domain := Some ''a''\<rparr>\<rparr>) =
     Inl (AriesFrameworkError ''Credential proof arrays are not supported'')"
  using matcher_rejects_proof_array
    [of "example_vc\<lparr>vc_proof := Array [example_proof, example_proof]\<rparr>"
        "[example_proof, example_proof]" example_helpers
        "example_request\<lparr>options := example_options\<lparr>domain := Some ''a''\<rparr>\<rparr>"]
  by (simp add: ProofArrayUnsupportedError_def)

text \<open>
  C4, as the source has it. The source guards the rule with the truth value of
  \<open>request.options.created\<close>, and the empty string is false. So: when the request gives a
  non-empty \<open>created\<close>, the matcher succeeds only on a single proof whose \<open>created\<close> is
  equal to it, and a single proof with another \<open>created\<close> (or none) is rejected with
  the error of the created rule; when the request gives no \<open>created\<close>, or the empty
  string, the created rule never fails, and the outcome of the matcher does not change
  with the \<open>created\<close> of the proof (as long as the credential without its proof
  serialises to the same JSON).
\<close>

theorem matcher_created_rule:
  "(truthy (created (options request))
      \<and> verifyReceivedCredentialMatchesRequest h vc request = Inr ()
      \<longrightarrow> (\<exists>p. vc_proof vc = Single p \<and> proof_created p = created (options request)))
   \<and> (\<forall>p. truthy (created (options request)) \<and> vc_proof vc = Single p
        \<and> proof_created p \<noteq> created (options request)
      \<longrightarrow> verifyReceivedCredentialMatchesRequest h vc request = Inl CreatedMismatchError)
   \<and> (\<not> truthy (created (options request))
      \<longrightarrow> verifyReceivedCredentialMatchesRequest h vc request \<noteq> Inl CreatedMismatchError)
   \<and> (\<forall>p c. \<not> truthy (created (options request)) \<and> vc_proof vc = Single p
        \<and> delete_proof (toJSON h (vc\<lparr>vc_proof := Single (p\<lparr>proof_created := c\<rparr>)\<rparr>)) =
            delete_proof (toJSON h vc)
      \<longrightarrow> verifyReceivedCredentialMatchesRequest h
            (vc\<lparr>vc_proof := Single (p\<lparr>proof_created := c\<rparr>)\<rparr>) request =
          verifyReceivedCredentialMatchesRequest h vc request)"
  by (auto simp: verifyReceivedCredentialMatchesRequest_def CreatedMismatchError_def Let_def
      split: SingleOrArray.splits if_splits)

text \<open>
  The witness: a request with another \<open>created\<close> than the proof's is rejected by the
  created rule; a request with the proof's \<open>created\<close> is accepted; a request with no
  \<open>created\<close> is accepted, also after the proof's \<open>created\<close> is removed.
\<close>

theorem matcher_created_rule_witness:
  "verifyReceivedCredentialMatchesRequest example_helpers example_vc
       (example_request\<lparr>options := example_options\<lparr>created := Some ''2021-06-01T00:00:00Z''\<rparr>\<rparr>) =
     Inl (AriesFrameworkError
       ''Received credential proof created does not match created from credential request'')
   \<and> verifyReceivedCredentialMatchesRequest example_helpers example_vc
       (example_request\<lparr>options := example_options\<lparr>created := Some ''2020-01-01T00:00:00Z''\<rparr>\<rparr>) =
     Inr ()
   \<and> created (options example_request) = None
   \<and> verifyReceivedCredentialMatchesRequest example_helpers example_vc example_request = Inr ()
   \<and> verifyReceivedCredentialMatchesRequest example_helpers
       (example_vc\<lparr>vc_proof := Single (example_proof\<lparr>proof_created := None\<rparr>)\<rparr>)
       example_request = Inr ()"
  using matcher_created_rule
    [of "example_request\<lparr>options := example_options\<lparr>created := Some ''2021-06-01T00:00:00Z''\<rparr>\<rparr>"
        example_helpers example_vc]
    matcher_created_rule [of example_request example_helpers example_vc]
  by (simp add: example_defs CreatedMismatchError_def truthy_def delete_proof_def
      verifyReceivedCredentialMatchesRequest_def)

text \<open>
  The claim as written fails: a request whose \<open>created\<close> is the empty string has
  \<open>created\<close> present, the proof's \<open>created\<close> differs from it, and the matcher accepts.
\<close>

theorem matcher_created_empty_counterexample:
  "created (options (example_request\<lparr>options := example_options\<lparr>created := Some ''''\<rparr>\<rparr>)) = Some ''''
   \<and> vc_proof example_vc = Single example_proof
   \<and> proof_created example_proof = Some ''2020-01-01T00:00:00Z''
   \<and> verifyReceivedCredentialMatchesRequest example_helpers example_vc
       (example_request\<lparr>options := example_options\<lparr>created := Some ''''\<rparr>\<rparr>) = Inr ()"
  by (simp add: example_defs truthy_def delete_proof_def verifyReceivedCredentialMatchesRequest_def)

subsection \<open>Answering automatically to a credential\<close>

text \<open>
  C1, as the source has it. The \<open>try\<close> block of \<open>shouldAutoRespondToCredential\<close> holds the
  matcher alone. A failure to decode the credential attachment, to transform the
  credential or to decode the request attachment happens before the block and reaches
  the caller. Once the three have succeeded, the method returns a boolean: true when
  the matcher succeeds and false on every failure of the matcher.
\<close>

theorem shouldAutoRespondToCredential_outcome:
  "(\<forall>e. getDataAsJson encJ credentialAttachment = Inl e \<longrightarrow>
      shouldAutoRespondToCredential encJ encD h requestAttachment credentialAttachment = Inl e)
   \<and> (\<forall>cj e. getDataAsJson encJ credentialAttachment = Inr cj
        \<and> fromJSON_W3cVerifiableCredential h cj = Inl e \<longrightarrow>
      shouldAutoRespondToCredential encJ encD h requestAttachment credentialAttachment = Inl e)
   \<and> (\<forall>cj vc e. getDataAsJson encJ credentialAttachment = Inr cj
        \<and> fromJSON_W3cVerifiableCredential h cj = Inr vc
        \<and> getDataAsJson encD requestAttachment = Inl e \<longrightarrow>
      shouldAutoRespondToCredential encJ encD h requestAttachment credentialAttachment = Inl e)
   \<and> (\<forall>cj vc request. getDataAsJson encJ credentialAttachment = Inr cj
        \<and> fromJSON_W3cVerifiableCredential h cj = Inr vc
        \<and> getDataAsJson encD requestAttachment = Inr request \<longrightarrow>
      shouldAutoRespondToCredential encJ encD h requestAttachment credentialAttachment =
        Inr (verifyReceivedCredentialMatchesRequest h vc request = Inr ()))"
  by (auto simp: shouldAutoRespondToCredential_def split: sum.splits)

text \<open>
  The witness: a request whose domain the proof does not match gives false, the matching
  request gives true.
\<close>

theorem shouldAutoRespondToCredential_outcome_witness:
  "shouldAutoRespondToCredential jsonEncoder detailEncoder example_helpers
      (request_attachment (example_request\<lparr>options := example_options\<lparr>domain := Some ''a''\<rparr>\<rparr>)) (credential_attachment (example_toJSON example_vc)) = Inr False
   \<and> shouldAutoRespondToCredential jsonEncoder detailEncoder example_helpers
      (request_attachment example_request) (credential_attachment (example_toJSON example_vc)) = Inr True"
  using shouldAutoRespondToCredential_outcome [of jsonEncoder "credential_attachment (example_toJSON example_vc)"
      detailEncoder example_helpers "request_attachment (example_request\<lparr>options := example_options\<lparr>domain := Some ''a''\<rparr>\<rparr>)"]
    shouldAutoRespondToCredential_outcome [of jsonEncoder "credential_attachment (example_toJSON example_vc)"
      detailEncoder example_helpers "request_attachment example_request"]
    decode_credential_attachment
  by (simp add: example_defs decode_request_attachment verifyReceivedCredentialMatchesRequest_def
      truthy_def delete_proof_def)

text \<open>
  The claim as written fails: a credential attachment whose body does not decode makes
  the method throw.
\<close>

theorem shouldAutoRespondToCredential_throws_counterexample:
  "shouldAutoRespondToCredential jsonEncoder detailEncoder example_helpers
      (request_attachment example_request) (attachment_with ''not base64'') =
        Inl (OtherError ''Malformed attachment'')"
  by (simp add: shouldAutoRespondToCredential_def decode_malformed)

subsection \<open>Receiving a credential\<close>

text \<open>
  C3. Whatever \<open>processCredential\<close> returns: if it fails, the exchange record is the one
  it was given; the record changes only in a run in which the attachments decoded, the
  matcher accepted, the verification service answered without a negative result, and
  the store returned a record, and then exactly one binding (\<open>w3c\<close>, the id of the stored
  record) is appended; and the verification service is called only after the matcher
  has accepted, and before the store.
\<close>

theorem processCredential_order_and_frame:
  assumes run: "processCredential encJ encD h ctx rec att reqAtt = (res, calls, rec')"
  shows "(\<forall>e. res = Inl e \<longrightarrow> rec' = rec)
   \<and> (res = Inr () \<or> rec' \<noteq> rec \<longrightarrow>
        (\<exists>cj vc request result stored.
           getDataAsJson encJ att = Inr cj
         \<and> fromJSON_W3cVerifiableCredential h cj = Inr vc
         \<and> getDataAsJson encD reqAtt = Inr request
         \<and> verifyReceivedCredentialMatchesRequest h vc request = Inr ()
         \<and> verifyCredential ctx vc = Inr result
         \<and> (\<forall>r. result = Some r \<longrightarrow> verified r)
         \<and> storeCredential ctx vc = Inr stored
         \<and> calls = [VerifyCredential vc, StoreCredential vc]
         \<and> res = Inr ()
         \<and> rec' = rec\<lparr>credentials := credentials rec @
               [\<lparr>credentialRecordType = ''w3c'', credentialRecordId = record_id stored\<rparr>]\<rparr>))
   \<and> (calls \<noteq> [] \<longrightarrow>
        (\<exists>cj vc request.
           getDataAsJson encJ att = Inr cj
         \<and> fromJSON_W3cVerifiableCredential h cj = Inr vc
         \<and> getDataAsJson encD reqAtt = Inr request
         \<and> verifyReceivedCredentialMatchesRequest h vc request = Inr ()
         \<and> (calls = [VerifyCredential vc] \<or> calls = [VerifyCredential vc, StoreCredential vc])))"
  using run
  by (auto simp: processCredential_def credentialRecordType_w3c_def
      split: sum.splits option.splits if_splits)

text \<open>
  The witness: the matching credential is verified, stored and bound to the record; a
  credential that does not match the request (its domain) leaves the record as it was,
  with no call made; and so does a credential the verification service rejects, after
  the one call to that service.
\<close>

theorem processCredential_order_and_frame_witness:
  "processCredential jsonEncoder detailEncoder example_helpers example_ctx
      \<lparr>credentials = []\<rparr> (credential_attachment (example_toJSON example_vc)) (request_attachment example_request) =
     (Inr (), [VerifyCredential example_vc, StoreCredential example_vc],
      \<lparr>credentials = [\<lparr>credentialRecordType = ''w3c'', credentialRecordId = ''record-1''\<rparr>]\<rparr>)
   \<and> processCredential jsonEncoder detailEncoder example_helpers example_ctx
      \<lparr>credentials = []\<rparr> (credential_attachment (example_toJSON example_vc))
      (request_attachment (example_request\<lparr>options := example_options\<lparr>domain := Some ''a''\<rparr>\<rparr>)) =
     (Inl (AriesFrameworkError
        ''Received credential proof domain does not match domain from credential request''),
      [], \<lparr>credentials = []\<rparr>)
   \<and> processCredential jsonEncoder detailEncoder example_helpers
      (example_ctx\<lparr>verifyCredential :=
         (\<lambda>v. Inr (Some \<lparr>verified = False, verify_error = Some ''Invalid signature''\<rparr>))\<rparr>)
      \<lparr>credentials = []\<rparr> (credential_attachment (example_toJSON example_vc)) (request_attachment example_request) =
     (Inl (AriesFrameworkError ''Failed to validate credential, error = Invalid signature''),
      [VerifyCredential example_vc], \<lparr>credentials = []\<rparr>)"
proof -
  let ?ok = "processCredential jsonEncoder detailEncoder example_helpers example_ctx
      \<lparr>credentials = []\<rparr> (credential_attachment (example_toJSON example_vc)) (request_attachment example_request)"
  let ?mismatch = "processCredential jsonEncoder detailEncoder example_helpers example_ctx
      \<lparr>credentials = []\<rparr> (credential_attachment (example_toJSON example_vc))
      (request_attachment (example_request\<lparr>options := example_options\<lparr>domain := Some ''a''\<rparr>\<rparr>))"
  let ?rejected = "processCredential jsonEncoder detailEncoder example_helpers
      (example_ctx\<lparr>verifyCredential :=
         (\<lambda>v. Inr (Some \<lparr>verified = False, verify_error = Some ''Invalid signature''\<rparr>))\<rparr>)
      \<lparr>credentials = []\<rparr> (credential_attachment (example_toJSON example_vc)) (request_attachment example_request)"
  have ok: "?ok = (fst ?ok, fst (snd ?ok), snd (snd ?ok))"
    and mismatch: "?mismatch = (fst ?mismatch, fst (snd ?mismatch), snd (snd ?mismatch))"
    and rejected: "?rejected = (fst ?rejected, fst (snd ?rejected), snd (snd ?rejected))"
    by simp_all
  show ?thesis
    using processCredential_order_and_frame [OF ok] processCredential_order_and_frame [OF mismatch]
      processCredential_order_and_frame [OF rejected] decode_credential_attachment
    by (simp add: example_defs processCredential_def decode_request_attachment
        verifyReceivedCredentialMatchesRequest_def truthy_def delete_proof_def
        credentialRecordType_w3c_def)
qed

text \<open>
  C10. In a run of \<open>processCredential\<close> that has reached the verification service, and in
  which the service has returned: the error of a failed verification is raised exactly
  when the service returned a result whose \<open>verified\<close> is false, and it carries the error
  of that result; when the service returned no result at all (\<open>null\<close> or \<open>undefined\<close>), or
  a result whose \<open>verified\<close> is true, the credential is stored, and bound to the exchange
  record when the store returns.
\<close>

theorem processCredential_verification_result:
  assumes "getDataAsJson encJ att = Inr cj"
    and "fromJSON_W3cVerifiableCredential h cj = Inr vc"
    and "getDataAsJson encD reqAtt = Inr request"
    and "verifyReceivedCredentialMatchesRequest h vc request = Inr ()"
    and "verifyCredential ctx vc = Inr result"
  shows "(\<forall>r. result = Some r \<and> \<not> verified r \<longrightarrow>
           processCredential encJ encD h ctx rec att reqAtt =
             (Inl (VerificationFailedError (verify_error r)), [VerifyCredential vc], rec))
    \<and> (result = None \<or> (\<exists>r. result = Some r \<and> verified r) \<longrightarrow>
           processCredential encJ encD h ctx rec att reqAtt =
             (case storeCredential ctx vc of
                Inl e \<Rightarrow> (Inl e, [VerifyCredential vc, StoreCredential vc], rec)
              | Inr stored \<Rightarrow>
                  (Inr (), [VerifyCredential vc, StoreCredential vc],
                   rec\<lparr>credentials := credentials rec @
                     [\<lparr>credentialRecordType = ''w3c'', credentialRecordId = record_id stored\<rparr>]\<rparr>)))"
  using assms
  by (auto simp: processCredential_def VerificationFailedError_def credentialRecordType_w3c_def
      split: sum.splits option.splits)

text \<open>
  The witness: a verification service that returns no result. The credential is stored
  and bound to the record.
\<close>

theorem processCredential_verification_result_witness:
  "verifyCredential (example_ctx\<lparr>verifyCredential := (\<lambda>v. Inr None)\<rparr>) example_vc = Inr None
   \<and> processCredential jsonEncoder detailEncoder example_helpers
      (example_ctx\<lparr>verifyCredential := (\<lambda>v. Inr None)\<rparr>)
      \<lparr>credentials = []\<rparr> (credential_attachment (example_toJSON example_vc)) (request_attachment example_request) =
     (Inr (), [VerifyCredential example_vc, StoreCredential example_vc],
      \<lparr>credentials = [\<lparr>credentialRecordType = ''w3c'', credentialRecordId = ''record-1''\<rparr>]\<rparr>)"
proof -
  have decoded: "getDataAsJson jsonEncoder (credential_attachment (example_toJSON example_vc)) =
      Inr (example_toJSON example_vc)"
    by (rule decode_credential_attachment)
  have transformed: "fromJSON_W3cVerifiableCredential example_helpers
      (example_toJSON example_vc) = Inr example_vc"
    by (simp add: example_helpers_def)
  have request: "getDataAsJson detailEncoder (request_attachment example_request) = Inr example_request"
    by (rule decode_request_attachment) (simp_all add: example_request_def example_options_def)
  have matched: "verifyReceivedCredentialMatchesRequest example_helpers example_vc example_request =
      Inr ()"
    by (simp add: example_defs truthy_def delete_proof_def verifyReceivedCredentialMatchesRequest_def)
  have answered: "verifyCredential (example_ctx\<lparr>verifyCredential := (\<lambda>v. Inr None)\<rparr>) example_vc =
      Inr None"
    by simp
  show ?thesis
    using processCredential_verification_result [OF decoded transformed request matched answered,
        of "\<lparr>credentials = []\<rparr>"]
    by (simp add: example_ctx_def)
qed

subsection \<open>Deriving the verification method\<close>

text \<open>
  C6. \<open>deriveVerificationMethod\<close> transforms the credential and resolves the identity
  document of its issuer (a bare identifier, or the id of an issuer object) before it
  looks at the proof type; a failure of the transformation or of the resolver reaches the
  caller as it is, and so does a failure of the table of key types. With the document
  resolved, the resolver has been called once, before the table, and: when the proof type
  maps to no key type (no list, or an empty one) the method fails with the error for an
  unsupported proof type; otherwise it takes the first key type of the list, fails with
  the error for a missing verification method when the document has no method of that
  type, and returns the id of the first method of that type in the document when it has
  one.
\<close>

theorem deriveVerificationMethod_selects_first:
  "(\<forall>e. fromJSON_W3cCredential h cj = Inl e \<longrightarrow>
      deriveVerificationMethod h ctx cj request = (Inl e, []))
   \<and> (\<forall>cred d. fromJSON_W3cCredential h cj = Inr cred
          \<and> (issuer cred = IssuerString d \<or> issuer cred = IssuerObject d) \<longrightarrow>
        (\<forall>e. resolveDidDocument ctx d = Inl e \<longrightarrow>
           deriveVerificationMethod h ctx cj request = (Inl e, [ResolveDidDocument d]))
      \<and> (\<forall>doc. resolveDidDocument ctx d = Inr doc \<longrightarrow>
           snd (deriveVerificationMethod h ctx cj request) =
             [ResolveDidDocument d,
              GetVerificationMethodTypesByProofType (proofType (options request))]
         \<and> (\<forall>e. getVerificationMethodTypesByProofType ctx (proofType (options request)) = Inl e \<longrightarrow>
               fst (deriveVerificationMethod h ctx cj request) = Inl e)
         \<and> (getVerificationMethodTypesByProofType ctx (proofType (options request)) = Inr None
              \<or> getVerificationMethodTypesByProofType ctx (proofType (options request)) = Inr (Some [])
             \<longrightarrow> fst (deriveVerificationMethod h ctx cj request) =
                   Inl (UnsupportedProofTypeError (proofType (options request))))
         \<and> (\<forall>k ks. getVerificationMethodTypesByProofType ctx (proofType (options request)) =
                      Inr (Some (k # ks)) \<longrightarrow>
               ((\<forall>m \<in> set (doc_verificationMethod doc). vm_type m \<noteq> k) \<longrightarrow>
                  fst (deriveVerificationMethod h ctx cj request) =
                    Inl (VerificationMethodNotFoundError (k # ks)))
             \<and> (\<forall>before m after.
                   doc_verificationMethod doc = before @ m # after \<and> vm_type m = k
                   \<and> (\<forall>m' \<in> set before. vm_type m' \<noteq> k) \<longrightarrow>
                  fst (deriveVerificationMethod h ctx cj request) = Inr (vm_id m)))))"
proof (intro conjI allI impI)
  fix e
  assume "fromJSON_W3cCredential h cj = Inl e"
  then show "deriveVerificationMethod h ctx cj request = (Inl e, [])"
    by (simp add: deriveVerificationMethod_def)
next
  fix cred d
  assume start: "fromJSON_W3cCredential h cj = Inr cred
      \<and> (issuer cred = IssuerString d \<or> issuer cred = IssuerObject d)"
  let ?pt = "proofType (options request)"
  {
    fix e
    assume "resolveDidDocument ctx d = Inl e"
    with start show "deriveVerificationMethod h ctx cj request = (Inl e, [ResolveDidDocument d])"
      by (auto simp: deriveVerificationMethod_def Let_def)
  }
  fix doc
  assume resolved: "resolveDidDocument ctx d = Inr doc"
  from start resolved show "snd (deriveVerificationMethod h ctx cj request) =
      [ResolveDidDocument d, GetVerificationMethodTypesByProofType ?pt]"
    by (auto simp: deriveVerificationMethod_def Let_def split: sum.splits option.splits)
  {
    fix e
    assume "getVerificationMethodTypesByProofType ctx ?pt = Inl e"
    with start resolved show "fst (deriveVerificationMethod h ctx cj request) = Inl e"
      by (auto simp: deriveVerificationMethod_def Let_def)
  }
  {
    assume "getVerificationMethodTypesByProofType ctx ?pt = Inr None
        \<or> getVerificationMethodTypesByProofType ctx ?pt = Inr (Some [])"
    with start resolved show "fst (deriveVerificationMethod h ctx cj request) =
        Inl (UnsupportedProofTypeError ?pt)"
      by (auto simp: deriveVerificationMethod_def UnsupportedProofTypeError_def Let_def)
  }
  fix k ks
  assume mapped: "getVerificationMethodTypesByProofType ctx ?pt = Inr (Some (k # ks))"
  with start resolved have selected: "fst (deriveVerificationMethod h ctx cj request) =
      (case findVerificationMethodByKeyType k doc of
         None \<Rightarrow> Inl (VerificationMethodNotFoundError (k # ks))
       | Some m \<Rightarrow> Inr (vm_id m))"
    by (auto simp: deriveVerificationMethod_def VerificationMethodNotFoundError_def Let_def
        split: option.splits)
  {
    assume "\<forall>m \<in> set (doc_verificationMethod doc). vm_type m \<noteq> k"
    then show "fst (deriveVerificationMethod h ctx cj request) =
        Inl (VerificationMethodNotFoundError (k # ks))"
      by (simp add: selected findVerificationMethodByKeyType_def find_no_match)
  }
  fix before m after
  assume "doc_verificationMethod doc = before @ m # after \<and> vm_type m = k
      \<and> (\<forall>m' \<in> set before. vm_type m' \<noteq> k)"
  then show "fst (deriveVerificationMethod h ctx cj request) = Inr (vm_id m)"
    by (simp add: selected findVerificationMethodByKeyType_def find_first_match)
qed

text \<open>
  The witness: for \<open>Ed25519Signature2018\<close> the first key type is
  \<open>Ed25519VerificationKey2018\<close>, and the document has two methods of that type after one
  of another type: the id returned is that of the first of the two. For
  \<open>BbsBlsSignature2020\<close> the document has no method of the key type, and an unknown proof
  type has no key type. An issuer object whose id does not resolve gives the error of the
  resolver, and a table of key types that fails gives the error of the table.
\<close>

theorem deriveVerificationMethod_selects_first_witness:
  "deriveVerificationMethod example_helpers example_ctx example_credential example_request =
     (Inr ''did:example:123#key-1'',
      [ResolveDidDocument ''did:example:123'',
       GetVerificationMethodTypesByProofType ''Ed25519Signature2018''])
   \<and> fst (deriveVerificationMethod example_helpers example_ctx example_credential
       (example_request\<lparr>options := example_options\<lparr>proofType := ''BbsBlsSignature2020''\<rparr>\<rparr>)) =
     Inl (AriesFrameworkError ''Missing verification method for key type Bls12381G2Key2020'')
   \<and> fst (deriveVerificationMethod example_helpers example_ctx example_credential
       (example_request\<lparr>options := example_options\<lparr>proofType := ''X''\<rparr>\<rparr>)) =
     Inl (AriesFrameworkError ''No Key Type found for proofType X'')
   \<and> deriveVerificationMethod example_helpers example_ctx
       (JObj [(''issuer'', JObj [(''id'', JStr ''did:example:404'')])]) example_request =
     (Inl (OtherError ''Unable to resolve did''), [ResolveDidDocument ''did:example:404''])
   \<and> fst (deriveVerificationMethod example_helpers example_ctx_no_suite example_credential
       example_request) =
     Inl (OtherError ''No suite for proof type'')"
proof -
  let ?cred = "\<lparr>issuer = IssuerString ''did:example:123'', claims = example_credential\<rparr>"
  let ?bbs = "example_request\<lparr>options := example_options\<lparr>proofType := ''BbsBlsSignature2020''\<rparr>\<rparr>"
  let ?unknown = "example_request\<lparr>options := example_options\<lparr>proofType := ''X''\<rparr>\<rparr>"
  let ?lost = "JObj [(''issuer'', JObj [(''id'', JStr ''did:example:404'')])]"
  have transformed: "fromJSON_W3cCredential example_helpers example_credential = Inr ?cred
      \<and> (issuer ?cred = IssuerString ''did:example:123''
           \<or> issuer ?cred = IssuerObject ''did:example:123'')"
    by (simp add: example_helpers_def example_fromJSON_W3cCredential_def example_credential_def)
  have resolved: "resolveDidDocument example_ctx ''did:example:123'' = Inr example_doc"
    by (simp add: example_ctx_def)
  have resolved': "resolveDidDocument example_ctx_no_suite ''did:example:123'' = Inr example_doc"
    by (simp add: example_ctx_no_suite_def example_ctx_def)
  have ed: "getVerificationMethodTypesByProofType example_ctx (proofType (options example_request)) =
      Inr (Some [''Ed25519VerificationKey2018'', ''Ed25519VerificationKey2020''])"
    by (simp add: example_ctx_def example_request_def example_options_def)
  have bbs: "getVerificationMethodTypesByProofType example_ctx (proofType (options ?bbs)) =
      Inr (Some [''Bls12381G2Key2020''])"
    by (simp add: example_ctx_def)
  have unknown: "getVerificationMethodTypesByProofType example_ctx (proofType (options ?unknown)) =
        Inr None
      \<or> getVerificationMethodTypesByProofType example_ctx (proofType (options ?unknown)) =
        Inr (Some [])"
    by (simp add: example_ctx_def)
  have failing: "getVerificationMethodTypesByProofType example_ctx_no_suite
      (proofType (options example_request)) = Inl (OtherError ''No suite for proof type'')"
    by (simp add: example_ctx_no_suite_def)
  have lost: "fromJSON_W3cCredential example_helpers ?lost =
        Inr \<lparr>issuer = IssuerObject ''did:example:404'', claims = ?lost\<rparr>
      \<and> (issuer \<lparr>issuer = IssuerObject ''did:example:404'', claims = ?lost\<rparr> =
            IssuerString ''did:example:404''
           \<or> issuer \<lparr>issuer = IssuerObject ''did:example:404'', claims = ?lost\<rparr> =
            IssuerObject ''did:example:404'')"
    by (simp add: example_helpers_def example_fromJSON_W3cCredential_def)
  have unresolved: "resolveDidDocument example_ctx ''did:example:404'' =
      Inl (OtherError ''Unable to resolve did'')"
    by (simp add: example_ctx_def)
  note found = deriveVerificationMethod_selects_first
    [where h = example_helpers and ctx = example_ctx and cj = example_credential,
     THEN conjunct2, rule_format, OF transformed, THEN conjunct2, rule_format, OF resolved]
  have calls: "snd (deriveVerificationMethod example_helpers example_ctx example_credential
      example_request) =
      [ResolveDidDocument ''did:example:123'',
       GetVerificationMethodTypesByProofType ''Ed25519Signature2018'']"
    using found [of example_request, THEN conjunct1]
    by (simp add: example_request_def example_options_def)
  have first: "fst (deriveVerificationMethod example_helpers example_ctx example_credential
      example_request) = Inr ''did:example:123#key-1''"
    using found [of example_request, THEN conjunct2, THEN conjunct2, THEN conjunct2,
       rule_format, OF ed, THEN conjunct2, rule_format,
       of "[\<lparr>vm_id = ''did:example:123#key-0'', vm_type = ''X25519KeyAgreementKey2019'',
             vm_controller = ''did:example:123''\<rparr>]"
          "\<lparr>vm_id = ''did:example:123#key-1'', vm_type = ''Ed25519VerificationKey2018'',
            vm_controller = ''did:example:123''\<rparr>"
          "[\<lparr>vm_id = ''did:example:123#key-2'', vm_type = ''Ed25519VerificationKey2018'',
             vm_controller = ''did:example:123''\<rparr>]"]
    by (simp add: example_doc_def)
  have second: "fst (deriveVerificationMethod example_helpers example_ctx example_credential ?bbs) =
     Inl (AriesFrameworkError ''Missing verification method for key type Bls12381G2Key2020'')"
    using found [of ?bbs, THEN conjunct2, THEN conjunct2, THEN conjunct2,
       rule_format, OF bbs, THEN conjunct1]
    by (simp add: example_doc_def VerificationMethodNotFoundError_def)
  have third: "fst (deriveVerificationMethod example_helpers example_ctx example_credential ?unknown) =
     Inl (AriesFrameworkError ''No Key Type found for proofType X'')"
    using found [of ?unknown, THEN conjunct2, THEN conjunct2, THEN conjunct1,
       rule_format, OF unknown]
    by (simp add: UnsupportedProofTypeError_def)
  have fourth: "deriveVerificationMethod example_helpers example_ctx ?lost example_request =
     (Inl (OtherError ''Unable to resolve did''), [ResolveDidDocument ''did:example:404''])"
    using deriveVerificationMethod_selects_first
      [where h = example_helpers and ctx = example_ctx and cj = ?lost and request = example_request,
       THEN conjunct2, rule_format, OF lost, THEN conjunct1, rule_format, OF unresolved]
    by simp
  have fifth: "fst (deriveVerificationMethod example_helpers example_ctx_no_suite
      example_credential example_request) = Inl (OtherError ''No suite for proof type'')"
    using deriveVerificationMethod_selects_first
      [where h = example_helpers and ctx = example_ctx_no_suite and cj = example_credential
         and request = example_request,
       THEN conjunct2, rule_format, OF transformed, THEN conjunct2, rule_format, OF resolved',
       THEN conjunct2, THEN conjunct1, rule_format, OF failing]
    by simp
  from calls first second third fourth fifth show ?thesis
    by (simp add: prod_eq_iff)
qed

subsection \<open>Issuing a credential\<close>

text \<open>
  C2, as the source has it. \<open>acceptRequest\<close> obtains the verification method before it
  looks at the options, so a request whose verification method cannot be derived fails
  with the error of the derivation. For a request that decodes and for which a non-empty
  verification method has been obtained (supplied by the caller, or derived): when the
  options set any of \<open>challenge\<close>, \<open>domain\<close>, \<open>credentialStatus\<close> and \<open>created\<close>, the
  method fails, and the message of the error lists exactly the names that are set, in
  this order, separated by a comma and a space; when the options set none of the four,
  the method goes on to transform the credential and, if that succeeds, to call the
  signing service.
\<close>

theorem acceptRequest_unsupported_options:
  assumes decoded: "getDataAsJson encD requestAttachment = Inr req"
    and obtained: "(case suppliedVerificationMethod credentialFormats of
                      Some m \<Rightarrow> (Inr m, [])
                    | None \<Rightarrow> deriveVerificationMethod h ctx (credential req) req) = (Inr vm, calls)"
    and nonempty: "vm \<noteq> []"
  shows "(setUnsupportedFields (options req) \<noteq> [] \<longrightarrow>
           acceptRequest encD encC h ctx fresh credentialFormats aid requestAttachment =
             (Inl (UnsupportedOptionError (setUnsupportedFields (options req))), calls))
    \<and> (setUnsupportedFields (options req) = [] \<longrightarrow>
           (\<forall>e. fromJSON_W3cCredential h (credential req) = Inl e \<longrightarrow>
              acceptRequest encD encC h ctx fresh credentialFormats aid requestAttachment =
                (Inl e, calls))
         \<and> (\<forall>cred. fromJSON_W3cCredential h (credential req) = Inr cred \<longrightarrow>
              snd (acceptRequest encD encC h ctx fresh credentialFormats aid requestAttachment) =
                calls @ [SignCredential \<lparr>sign_credential = cred,
                           sign_proofType = proofType (options req),
                           sign_verificationMethod = vm\<rparr>]))"
  using assms
  by (auto simp: acceptRequest_def foundFields_eq UnsupportedOptionError_def Let_def
      split: sum.splits)

text \<open>
  The witness: with a verification method supplied, a request that sets \<open>challenge\<close> is
  rejected with a message that lists \<open>challenge\<close> alone, a request that sets \<open>created\<close>
  and \<open>domain\<close> with a message that lists \<open>domain\<close> before \<open>created\<close>, and a request that
  sets none of the four reaches the signing service.
\<close>

theorem acceptRequest_unsupported_options_witness:
  "acceptRequest detailEncoder example_credentialEncoder example_helpers example_ctx ''fresh-id''
      example_supplied None (request_attachment (example_request\<lparr>options :=
        example_options\<lparr>proofType := ''X'', challenge := Some ''c1''\<rparr>\<rparr>)) =
     (Inl (AriesFrameworkError
        ''Some fields are not currently supported in credential options: challenge''), [])
   \<and> acceptRequest detailEncoder example_credentialEncoder example_helpers example_ctx ''fresh-id''
      example_supplied None (request_attachment (example_request\<lparr>options :=
        example_options\<lparr>created := Some ''2020-01-01T00:00:00Z'', domain := Some ''a''\<rparr>\<rparr>)) =
     (Inl (AriesFrameworkError
        ''Some fields are not currently supported in credential options: domain, created''), [])
   \<and> snd (acceptRequest detailEncoder example_credentialEncoder example_helpers example_ctx ''fresh-id''
      example_supplied None (request_attachment example_request)) =
     [SignCredential
        \<lparr>sign_credential = \<lparr>issuer = IssuerString ''did:example:123'', claims = example_credential\<rparr>,
         sign_proofType = ''Ed25519Signature2018'',
         sign_verificationMethod = ''did:example:123#key-9''\<rparr>]"
proof -
  have supplied: "suppliedVerificationMethod example_supplied = Some ''did:example:123#key-9''"
    by (simp add: suppliedVerificationMethod_def example_supplied_def)
  have obtained: "(case suppliedVerificationMethod example_supplied of
        Some m \<Rightarrow> (Inr m, [])
      | None \<Rightarrow> deriveVerificationMethod example_helpers example_ctx (credential r) r) =
      (Inr ''did:example:123#key-9'', [])" for r
    by (simp add: supplied)
  have nonempty: "''did:example:123#key-9'' \<noteq> []"
    by simp
  have challenge: "getDataAsJson detailEncoder (request_attachment (example_request\<lparr>options :=
        example_options\<lparr>proofType := ''X'', challenge := Some ''c1''\<rparr>\<rparr>)) =
      Inr (example_request\<lparr>options := example_options\<lparr>proofType := ''X'', challenge := Some ''c1''\<rparr>\<rparr>)"
    by (rule decode_request_attachment) (simp_all add: example_request_def example_options_def)
  have both: "getDataAsJson detailEncoder (request_attachment (example_request\<lparr>options :=
        example_options\<lparr>created := Some ''2020-01-01T00:00:00Z'', domain := Some ''a''\<rparr>\<rparr>)) =
      Inr (example_request\<lparr>options :=
        example_options\<lparr>created := Some ''2020-01-01T00:00:00Z'', domain := Some ''a''\<rparr>\<rparr>)"
    by (rule decode_request_attachment) (simp_all add: example_request_def example_options_def)
  have plain: "getDataAsJson detailEncoder (request_attachment example_request) = Inr example_request"
    by (rule decode_request_attachment) (simp_all add: example_request_def example_options_def)
  have transformed: "fromJSON_W3cCredential example_helpers (credential example_request) =
      Inr \<lparr>issuer = IssuerString ''did:example:123'', claims = example_credential\<rparr>"
    by (simp add: example_helpers_def example_fromJSON_W3cCredential_def example_credential_def
        example_request_def)
  have first: "acceptRequest detailEncoder example_credentialEncoder example_helpers example_ctx ''fresh-id''
      example_supplied None (request_attachment (example_request\<lparr>options :=
        example_options\<lparr>proofType := ''X'', challenge := Some ''c1''\<rparr>\<rparr>)) =
     (Inl (AriesFrameworkError
        ''Some fields are not currently supported in credential options: challenge''), [])"
    using acceptRequest_unsupported_options [OF challenge obtained nonempty, THEN conjunct1]
    by (simp add: setUnsupportedFields_def UnsupportedOptionError_def example_options_def)
  have second: "acceptRequest detailEncoder example_credentialEncoder example_helpers example_ctx ''fresh-id''
      example_supplied None (request_attachment (example_request\<lparr>options :=
        example_options\<lparr>created := Some ''2020-01-01T00:00:00Z'', domain := Some ''a''\<rparr>\<rparr>)) =
     (Inl (AriesFrameworkError
        ''Some fields are not currently supported in credential options: domain, created''), [])"
    using acceptRequest_unsupported_options [OF both obtained nonempty, THEN conjunct1]
    by (simp add: setUnsupportedFields_def UnsupportedOptionError_def example_options_def)
  have third: "snd (acceptRequest detailEncoder example_credentialEncoder example_helpers example_ctx ''fresh-id''
      example_supplied None (request_attachment example_request)) =
     [SignCredential
        \<lparr>sign_credential = \<lparr>issuer = IssuerString ''did:example:123'', claims = example_credential\<rparr>,
         sign_proofType = ''Ed25519Signature2018'',
         sign_verificationMethod = ''did:example:123#key-9''\<rparr>]"
    using acceptRequest_unsupported_options [OF plain obtained nonempty, THEN conjunct2,
        THEN mp, THEN conjunct2, rule_format, OF _ transformed]
    by (simp add: setUnsupportedFields_def example_options_def example_request_def)
  from first second third show ?thesis by simp
qed

text \<open>
  The claim as written fails: a request with the options \<open>proofType: X\<close> and
  \<open>challenge: c1\<close>, with no verification method supplied, fails with the error of the
  derivation (no key type for \<open>X\<close>), not with the error for unsupported options.
\<close>

theorem acceptRequest_derivation_first_counterexample:
  "getDataAsJson detailEncoder (request_attachment (example_request\<lparr>options :=
        example_options\<lparr>proofType := ''X'', challenge := Some ''c1''\<rparr>\<rparr>)) =
     Inr (example_request\<lparr>options := example_options\<lparr>proofType := ''X'', challenge := Some ''c1''\<rparr>\<rparr>)
   \<and> fst (acceptRequest detailEncoder example_credentialEncoder example_helpers example_ctx ''fresh-id''
      None None (request_attachment (example_request\<lparr>options :=
        example_options\<lparr>proofType := ''X'', challenge := Some ''c1''\<rparr>\<rparr>))) =
     Inl (AriesFrameworkError ''No Key Type found for proofType X'')
   \<and> AriesFrameworkError ''No Key Type found for proofType X'' \<noteq>
       UnsupportedOptionError [''challenge'']"
  by (simp add: acceptRequest_def deriveVerificationMethod_def decode_request_attachment
      suppliedVerificationMethod_def UnsupportedOptionError_def example_defs Let_def)



subsection \<open>The attachment codec and the relay of a proposal\<close>

text \<open>
  C8. With the codec of the specification (JSON text, base64): decoding the attachment
  that encodes a payload gives that payload, whatever the attachment id, for every JSON
  value that is a value of JavaScript, for every credential detail and for every
  verifiable credential whose JSON parts are such values. Consequently, when
  \<open>acceptProposal\<close> returns an offer attachment for a proposal attachment, the offer
  carries the JSON value the proposal attachment decodes to, with every member it has,
  and \<open>acceptOffer\<close> on that offer attachment returns a request attachment that decodes
  to the same value; the request attachment is the offer attachment with the attachment
  id of the request (the one supplied, or a fresh one), so that the two bodies are the
  same bytes, under the format \<open>aries/ld-proof-vc-detail@v1.0\<close>.
\<close>

theorem attachment_roundtrip_and_relay:
  "(canonical j \<longrightarrow> getDataAsJson jsonEncoder (getFormatData jsonEncoder j aid) = Inr j)
   \<and> (wellformed_detail d \<longrightarrow>
        getDataAsJson detailEncoder (getFormatData detailEncoder d aid) = Inr d)
   \<and> (wellformed_credential v \<longrightarrow>
        getDataAsJson credentialEncoder (getFormatData credentialEncoder v aid) = Inr v)
   \<and> (\<forall>f offer. acceptProposal jsonEncoder h fresh1 aid1 proposalAttachment = Inr (f, offer) \<longrightarrow>
        (\<exists>detail f' request.
            getDataAsJson jsonEncoder proposalAttachment = Inr detail
          \<and> offer = getFormatData jsonEncoder detail (attachId f)
          \<and> acceptOffer jsonEncoder h fresh2 aid2 offer = Inr (f', request)
          \<and> getDataAsJson jsonEncoder request = Inr detail
          \<and> request = offer\<lparr>attachment_id := (case aid2 of Some a \<Rightarrow> a | None \<Rightarrow> fresh2)\<rparr>
          \<and> f' = \<lparr>attachId = attachment_id request, format_name = JSONLD_VC_DETAIL\<rparr>))"
proof (intro conjI allI impI)
  assume "canonical j"
  then show "getDataAsJson jsonEncoder (getFormatData jsonEncoder j aid) = Inr j"
    by (simp add: getDataAsJson_def getFormatData_def jsonEncoder_roundtrip)
next
  assume "wellformed_detail d"
  then show "getDataAsJson detailEncoder (getFormatData detailEncoder d aid) = Inr d"
    by (simp add: getDataAsJson_def getFormatData_def detailEncoder_roundtrip)
next
  assume "wellformed_credential v"
  then show "getDataAsJson credentialEncoder (getFormatData credentialEncoder v aid) = Inr v"
    by (simp add: getDataAsJson_def getFormatData_def credentialEncoder_roundtrip)
next
  fix f offer
  assume "acceptProposal jsonEncoder h fresh1 aid1 proposalAttachment = Inr (f, offer)"
  then show "\<exists>detail f' request.
      getDataAsJson jsonEncoder proposalAttachment = Inr detail
    \<and> offer = getFormatData jsonEncoder detail (attachId f)
    \<and> acceptOffer jsonEncoder h fresh2 aid2 offer = Inr (f', request)
    \<and> getDataAsJson jsonEncoder request = Inr detail
    \<and> request = offer\<lparr>attachment_id := (case aid2 of Some a \<Rightarrow> a | None \<Rightarrow> fresh2)\<rparr>
    \<and> f' = \<lparr>attachId = attachment_id request, format_name = JSONLD_VC_DETAIL\<rparr>"
    by (rule relay_preserves)
qed

text \<open>
  The witness: a JSON value with numbers that have a fraction and an exponent, the
  example request and the example credential decode to themselves. A proposal attachment
  whose body is the base64 of the JSON text of the example proposal is relayed: the offer
  and the request carry the same body under their own ids, and the request decodes to the
  example proposal, with the member the declared type does not have. The proposal written
  by hand is relayed as the value it decodes to: the offer and the request carry the JSON
  text of that value, and decode to it.
\<close>

theorem attachment_roundtrip_and_relay_witness:
  "getDataAsJson jsonEncoder (getFormatData jsonEncoder example_json ''attachment-7'') =
     Inr example_json
   \<and> getDataAsJson detailEncoder (getFormatData detailEncoder example_request ''attachment-8'') =
     Inr example_request
   \<and> getDataAsJson credentialEncoder (getFormatData credentialEncoder example_vc ''attachment-9'') =
     Inr example_vc
   \<and> acceptProposal jsonEncoder example_helpers ''offer-1'' None
      (attachment_with example_proposal_body) =
     Inr (\<lparr>attachId = ''offer-1'', format_name = ''aries/ld-proof-vc-detail@v1.0''\<rparr>,
          \<lparr>attachment_id = ''offer-1'', mimeType = ''application/json'',
           attachment_data = \<lparr>base64 = example_proposal_body\<rparr>\<rparr>)
   \<and> acceptOffer jsonEncoder example_helpers ''request-1'' None
      \<lparr>attachment_id = ''offer-1'', mimeType = ''application/json'',
       attachment_data = \<lparr>base64 = example_proposal_body\<rparr>\<rparr> =
     Inr (\<lparr>attachId = ''request-1'', format_name = ''aries/ld-proof-vc-detail@v1.0''\<rparr>,
          \<lparr>attachment_id = ''request-1'', mimeType = ''application/json'',
           attachment_data = \<lparr>base64 = example_proposal_body\<rparr>\<rparr>)
   \<and> getDataAsJson jsonEncoder
      \<lparr>attachment_id = ''request-1'', mimeType = ''application/json'',
       attachment_data = \<lparr>base64 = example_proposal_body\<rparr>\<rparr> = Inr example_proposal
   \<and> getDataAsJson jsonEncoder (attachment_with example_handwritten_body) = Inr example_relayed
   \<and> acceptProposal jsonEncoder example_helpers ''offer-2'' None
      (attachment_with example_handwritten_body) =
     Inr (\<lparr>attachId = ''offer-2'', format_name = ''aries/ld-proof-vc-detail@v1.0''\<rparr>,
          \<lparr>attachment_id = ''offer-2'', mimeType = ''application/json'',
           attachment_data = \<lparr>base64 = example_relayed_body\<rparr>\<rparr>)
   \<and> acceptOffer jsonEncoder example_helpers ''request-2'' (Some ''offer-2'')
      \<lparr>attachment_id = ''offer-2'', mimeType = ''application/json'',
       attachment_data = \<lparr>base64 = example_relayed_body\<rparr>\<rparr> =
     Inr (\<lparr>attachId = ''offer-2'', format_name = ''aries/ld-proof-vc-detail@v1.0''\<rparr>,
          \<lparr>attachment_id = ''offer-2'', mimeType = ''application/json'',
           attachment_data = \<lparr>base64 = example_relayed_body\<rparr>\<rparr>)
   \<and> getDataAsJson jsonEncoder
      \<lparr>attachment_id = ''offer-2'', mimeType = ''application/json'',
       attachment_data = \<lparr>base64 = example_relayed_body\<rparr>\<rparr> = Inr example_relayed"
proof -
  have detail: "wellformed_detail example_request"
    by (simp add: wellformed_detail_def example_request_def example_options_def
        canonical_example_credential)
  have accepted: "acceptProposal jsonEncoder example_helpers ''offer-1'' None
      (attachment_with example_proposal_body) =
     Inr (\<lparr>attachId = ''offer-1'', format_name = ''aries/ld-proof-vc-detail@v1.0''\<rparr>,
          \<lparr>attachment_id = ''offer-1'', mimeType = ''application/json'',
           attachment_data = \<lparr>base64 = example_proposal_body\<rparr>\<rparr>)"
    by (simp add: acceptProposal_def example_proposal_decoded example_helpers_def
        newCredentialFormatSpec_def getFormatData_def JSONLD_VC_DETAIL_def
        example_proposal_encoded)
  note all = attachment_roundtrip_and_relay
    [where j = example_json and d = example_request and v = example_vc
       and h = example_helpers and ?fresh1.0 = "''offer-1''" and ?aid1.0 = None
       and proposalAttachment = "attachment_with example_proposal_body"
       and ?fresh2.0 = "''request-1''" and ?aid2.0 = None]
  have first: "getDataAsJson jsonEncoder (getFormatData jsonEncoder example_json ''attachment-7'') =
      Inr example_json"
    using all [THEN conjunct1, rule_format, OF canonical_example_json] .
  have second: "getDataAsJson detailEncoder
      (getFormatData detailEncoder example_request ''attachment-8'') = Inr example_request"
    using all [THEN conjunct2, THEN conjunct1, rule_format, OF detail] .
  have third: "getDataAsJson credentialEncoder
      (getFormatData credentialEncoder example_vc ''attachment-9'') = Inr example_vc"
    using all [THEN conjunct2, THEN conjunct2, THEN conjunct1, rule_format,
        OF wellformed_example_vc] .
  from all [THEN conjunct2, THEN conjunct2, THEN conjunct2, rule_format, OF accepted]
  have relay: "acceptOffer jsonEncoder example_helpers ''request-1'' None
      \<lparr>attachment_id = ''offer-1'', mimeType = ''application/json'',
       attachment_data = \<lparr>base64 = example_proposal_body\<rparr>\<rparr> =
     Inr (\<lparr>attachId = ''request-1'', format_name = ''aries/ld-proof-vc-detail@v1.0''\<rparr>,
          \<lparr>attachment_id = ''request-1'', mimeType = ''application/json'',
           attachment_data = \<lparr>base64 = example_proposal_body\<rparr>\<rparr>)
   \<and> getDataAsJson jsonEncoder
      \<lparr>attachment_id = ''request-1'', mimeType = ''application/json'',
       attachment_data = \<lparr>base64 = example_proposal_body\<rparr>\<rparr> = Inr example_proposal"
    using example_proposal_decoded by (auto simp: JSONLD_VC_DETAIL_def)
  have accepted': "acceptProposal jsonEncoder example_helpers ''offer-2'' None
      (attachment_with example_handwritten_body) =
     Inr (\<lparr>attachId = ''offer-2'', format_name = ''aries/ld-proof-vc-detail@v1.0''\<rparr>,
          \<lparr>attachment_id = ''offer-2'', mimeType = ''application/json'',
           attachment_data = \<lparr>base64 = example_relayed_body\<rparr>\<rparr>)"
    by (simp add: acceptProposal_def example_handwritten_decoded example_helpers_def
        newCredentialFormatSpec_def getFormatData_def JSONLD_VC_DETAIL_def
        example_relayed_encoded)
  from attachment_roundtrip_and_relay
    [where h = example_helpers and ?fresh1.0 = "''offer-2''" and ?aid1.0 = None
       and proposalAttachment = "attachment_with example_handwritten_body"
       and ?fresh2.0 = "''request-2''" and ?aid2.0 = "Some ''offer-2''",
     THEN conjunct2, THEN conjunct2, THEN conjunct2, rule_format, OF accepted']
  have relay': "acceptOffer jsonEncoder example_helpers ''request-2'' (Some ''offer-2'')
      \<lparr>attachment_id = ''offer-2'', mimeType = ''application/json'',
       attachment_data = \<lparr>base64 = example_relayed_body\<rparr>\<rparr> =
     Inr (\<lparr>attachId = ''offer-2'', format_name = ''aries/ld-proof-vc-detail@v1.0''\<rparr>,
          \<lparr>attachment_id = ''offer-2'', mimeType = ''application/json'',
           attachment_data = \<lparr>base64 = example_relayed_body\<rparr>\<rparr>)
   \<and> getDataAsJson jsonEncoder
      \<lparr>attachment_id = ''offer-2'', mimeType = ''application/json'',
       attachment_data = \<lparr>base64 = example_relayed_body\<rparr>\<rparr> = Inr example_relayed"
    using example_handwritten_decoded by (auto simp: JSONLD_VC_DETAIL_def)
  from first second third accepted relay accepted' relay' example_handwritten_decoded
  show ?thesis
    by simp
qed

end
